theory Spec2Isabelle
  imports Complex_Main "HOL-Library.Log_Nat"
begin

section \<open>Python values and exceptions\<close>

text \<open>
  The action is one Python function wrapped in \<^verbatim>\<open>try ... except Exception\<close>.
  An exception is a value: \<open>Exception msg\<close> stands for an instance of a class
  derived from \<^verbatim>\<open>Exception\<close> whose \<^verbatim>\<open>str(e)\<close> is \<open>msg\<close>;
  \<open>BaseException msg\<close> stands for one that is not (KeyboardInterrupt, SystemExit,
  GeneratorExit, asyncio.CancelledError), which \<^verbatim>\<open>except Exception\<close> does not catch.
  Strings are ASCII: a \<open>char\<close> is one byte.
\<close>

datatype exn = Exception string | BaseException string

subsection \<open>Decimal printing: \<^verbatim>\<open>str(int)\<close>\<close>

definition digit_char :: "nat \<Rightarrow> char" where
  "digit_char d = ''0123456789'' ! d"

fun str_nat :: "nat \<Rightarrow> string" where
  "str_nat n = (if n < 10 then [digit_char n] else str_nat (n div 10) @ [digit_char (n mod 10)])"

declare str_nat.simps [simp del]

definition str_int :: "int \<Rightarrow> string" where
  "str_int i = (if i < 0 then CHR ''-'' # str_nat (nat (- i)) else str_nat (nat i))"

subsection \<open>\<^verbatim>\<open>repr(str)\<close>, as it appears in the messages of ValueError\<close>

definition hex_digit :: "nat \<Rightarrow> char" where
  "hex_digit d = ''0123456789abcdef'' ! d"

definition repr_char :: "char \<Rightarrow> char \<Rightarrow> string" where
  "repr_char q c =
     (if c = q \<or> c = CHR 0x5C then [CHR 0x5C, c]
      else if c = CHR 0x09 then [CHR 0x5C, CHR ''t'']
      else if c = CHR 0x0A then [CHR 0x5C, CHR ''n'']
      else if c = CHR 0x0D then [CHR 0x5C, CHR ''r'']
      else if (of_char c :: nat) < 32 \<or> 127 \<le> (of_char c :: nat)
        then [CHR 0x5C, CHR ''x'', hex_digit (of_char c div 16), hex_digit (of_char c mod 16)]
      else [c])"

definition py_repr :: "string \<Rightarrow> string" where
  "py_repr s =
     (let q = (if CHR 0x27 \<in> set s \<and> CHR 0x22 \<notin> set s then CHR 0x22 else CHR 0x27)
      in q # concat (map (repr_char q) s) @ [q])"

subsection \<open>Parsing: the grammar shared by \<^verbatim>\<open>int(str)\<close> and \<^verbatim>\<open>float(str)\<close>\<close>

definition is_space :: "char \<Rightarrow> bool" where
  "is_space c = (c \<in> set [CHR 0x09, CHR 0x0A, CHR 0x0B, CHR 0x0C, CHR 0x0D,
                            CHR 0x1C, CHR 0x1D, CHR 0x1E, CHR 0x1F, CHR 0x20])"

definition strip :: "string \<Rightarrow> string" where
  "strip s = rev (dropWhile is_space (rev (dropWhile is_space s)))"

definition is_digit :: "char \<Rightarrow> bool" where
  "is_digit c = (c \<in> set ''0123456789'')"

definition digit_val :: "char \<Rightarrow> nat" where
  "digit_val c = length (takeWhile (\<lambda>d. d \<noteq> c) ''0123456789'')"

definition take_sign :: "string \<Rightarrow> bool \<times> string" where
  "take_sign s =
     (case s of
        [] \<Rightarrow> (False, [])
      | c # cs \<Rightarrow> if c = CHR ''-'' then (True, cs) else if c = CHR ''+'' then (False, cs)
                  else (False, s))"

text \<open>
  \<^verbatim>\<open>digitpart ::= digit (["_"] digit)*\<close>: the digits read and the rest of the string.
  \<open>digits_tail\<close> reads what follows the first digit; an underscore that is not followed
  by a digit stops it and stays in the rest.
\<close>

fun digits_tail :: "string \<Rightarrow> nat list \<times> string" where
  "digits_tail [] = ([], [])"
| "digits_tail (c # cs) =
     (if is_digit c then (case digits_tail cs of (ds, r) \<Rightarrow> (digit_val c # ds, r))
      else if c = CHR ''_'' then
        (case cs of
           [] \<Rightarrow> ([], c # cs)
         | d # cs' \<Rightarrow>
             if is_digit d then (case digits_tail cs' of (ds, r) \<Rightarrow> (digit_val d # ds, r))
             else ([], c # cs))
      else ([], c # cs))"

definition digitpart :: "string \<Rightarrow> (nat list \<times> string) option" where
  "digitpart s =
     (case s of
        [] \<Rightarrow> None
      | c # cs \<Rightarrow>
          if is_digit c then (case digits_tail cs of (ds, r) \<Rightarrow> Some (digit_val c # ds, r))
          else None)"

definition digits_value :: "nat list \<Rightarrow> nat" where
  "digits_value ds = foldl (\<lambda>a d. 10 * a + d) 0 ds"

subsection \<open>\<^verbatim>\<open>int(str)\<close>\<close>

text \<open>
  \<open>max_digits\<close> is the interpreter's \<^verbatim>\<open>sys.get_int_max_str_digits()\<close>: \<open>0\<close> when there is
  no limit (the only case before Python 3.11), \<open>4300\<close> by default since. CPython counts
  the digits while it scans them, before it looks at what follows them.
\<close>

definition int_literal_error :: "string \<Rightarrow> exn" where
  "int_literal_error s = Exception (''invalid literal for int() with base 10: '' @ py_repr s)"

definition int_limit_error :: "nat \<Rightarrow> nat \<Rightarrow> exn" where
  "int_limit_error max_digits n = Exception
     (''Exceeds the limit ('' @ str_nat max_digits @ '' digits) for integer string conversion: value has ''
      @ str_nat n @ '' digits; use sys.set_int_max_str_digits() to increase the limit'')"

definition py_int_of_str :: "nat \<Rightarrow> string \<Rightarrow> exn + int" where
  "py_int_of_str max_digits s =
     (case take_sign (strip s) of (neg, r) \<Rightarrow>
        (case digitpart r of
           None \<Rightarrow> Inl (int_literal_error s)
         | Some (ds, rest) \<Rightarrow>
             if rest \<noteq> [] \<and> hd rest = CHR ''_'' then Inl (int_literal_error s)
             else if 640 < length ds \<and> 0 < max_digits \<and> max_digits < length ds
               then Inl (int_limit_error max_digits (length ds))
             else if rest \<noteq> [] then Inl (int_literal_error s)
             else Inr (if neg then - int (digits_value ds) else int (digits_value ds))))"

section \<open>IEEE 754 binary64, as Python's \<^verbatim>\<open>float\<close>\<close>

text \<open>
  A finite double is the rational it denotes; the two zeros are one value (no operation
  of the action tells them apart: the only floats it prints come from a division of a
  non-negative integer). Every operation is the exact operation on rationals followed by
  \<open>round_double\<close>: rounding to nearest, ties to even, to 53 significant bits, with
  gradual underflow below \<open>2^-1022\<close> and overflow to an infinity at \<open>2^1024\<close>.
\<close>

datatype double = Fin rat | PInf | NInf | NaN

text \<open>\<open>ilog2 a\<close> is \<open>\<lfloor>log\<^sub>2 a\<rfloor>\<close> for \<open>a > 0\<close>, \<open>rne\<close> rounds half to even.\<close>

definition pow2 :: "int \<Rightarrow> rat" where
  "pow2 e = 2 powi e"

definition rne :: "rat \<Rightarrow> int" where
  "rne x = (let f = \<lfloor>x\<rfloor>; r = x - of_int f in
     if r < 1 / 2 then f else if 1 / 2 < r then f + 1 else if even f then f else f + 1)"

definition ilog2 :: "rat \<Rightarrow> int" where
  "ilog2 a = (if 1 \<le> a then int (floorlog 2 (nat \<lfloor>a\<rfloor>)) - 1
              else - int (floorlog 2 (nat (\<lceil>1 / a\<rceil> - 1))))"

definition round_double :: "rat \<Rightarrow> double" where
  "round_double x = (if x = 0 then Fin 0 else
     let a = \<bar>x\<bar>; e = max (ilog2 a) (- 1022); u = pow2 (e - 52);
         y = of_int (rne (a / u)) * u
     in if pow2 1024 \<le> y then (if 0 < x then PInf else NInf)
        else Fin (if 0 < x then y else - y))"

lemma pow2_pos: "0 < pow2 e"
  by (simp add: pow2_def)

lemma pow2_Suc: "pow2 (e + 1) = 2 * pow2 e"
  by (simp add: pow2_def power_int_add)

lemma pow2_mono: "a \<le> b \<Longrightarrow> pow2 a \<le> pow2 b"
  by (simp add: pow2_def power_int_increasing)

lemma pow2_nat: "pow2 (int k) = 2 ^ k"
  by (simp add: pow2_def)

lemma pow2_neg_nat: "pow2 (- int k) = 1 / 2 ^ k"
  by (simp add: pow2_def power_int_minus_divide)

lemma ilog2_bounds_ge1:
  assumes "1 \<le> a"
  shows "pow2 (ilog2 a) \<le> a \<and> a < pow2 (ilog2 a + 1)"
proof -
  define n where "n = nat \<lfloor>a\<rfloor>"
  define k where "k = floorlog 2 n"
  have n_pos: "0 < n" using assms by (simp add: n_def)
  have b: "2 ^ (k - 1) \<le> n \<and> n < 2 ^ k"
    unfolding k_def using floorlog_bounds [of n 2] n_pos by simp
  have k_pos: "0 < k" using b n_pos by (cases k) auto
  have na: "of_nat n \<le> a" "a < of_nat n + 1"
    using assms by (simp_all add: n_def) linarith+
  have e: "ilog2 a = int (k - 1)" "ilog2 a + 1 = int k"
    using assms k_pos by (simp_all add: ilog2_def k_def n_def)
  have "(2::rat) ^ (k - 1) \<le> of_nat n"
    using b by (metis of_nat_le_iff of_nat_numeral of_nat_power)
  moreover have "(of_nat n :: rat) + 1 \<le> 2 ^ k"
  proof -
    have "n + 1 \<le> 2 ^ k" using b by simp
    then have "(of_nat (n + 1) :: rat) \<le> of_nat (2 ^ k)" by (simp only: of_nat_le_iff)
    then show ?thesis by simp
  qed
  moreover have "pow2 (ilog2 a) = 2 ^ (k - 1)" by (simp only: e(1) pow2_nat)
  moreover have "pow2 (ilog2 a + 1) = 2 ^ k" by (simp only: e(2) pow2_nat)
  ultimately show ?thesis
    using na by linarith
qed

lemma ilog2_bounds_lt1:
  assumes "0 < a" "a < 1"
  shows "pow2 (ilog2 a) \<le> a \<and> a < pow2 (ilog2 a + 1)"
proof -
  define n where "n = nat (\<lceil>1 / a\<rceil> - 1)"
  define k where "k = floorlog 2 n"
  have inv: "1 < 1 / a" using assms by simp
  then have c2: "2 \<le> \<lceil>1 / a\<rceil>" by linarith
  have n_pos: "0 < n" using c2 by (simp add: n_def)
  have b: "2 ^ (k - 1) \<le> n \<and> n < 2 ^ k"
    unfolding k_def using floorlog_bounds [of n 2] n_pos by simp
  have k_pos: "0 < k" using b n_pos by (cases k) auto
  have na: "of_nat n < 1 / a" "1 / a \<le> of_nat n + 1"
    using c2 by (simp_all add: n_def) linarith+
  have e: "ilog2 a = - int k" "ilog2 a + 1 = - int (k - 1)"
    using assms k_pos by (simp_all add: ilog2_def k_def n_def)
  have lo: "(2::rat) ^ (k - 1) \<le> of_nat n"
    using b by (metis of_nat_le_iff of_nat_numeral of_nat_power)
  have hi: "(of_nat n :: rat) + 1 \<le> 2 ^ k"
  proof -
    have "n + 1 \<le> 2 ^ k" using b by simp
    then have "(of_nat (n + 1) :: rat) \<le> of_nat (2 ^ k)" by (simp only: of_nat_le_iff)
    then show ?thesis by simp
  qed
  have "1 / a \<le> 2 ^ k" using na hi by linarith
  then have p1: "1 / 2 ^ k \<le> a"
    using assms by (simp add: field_simps)
  have "2 ^ (k - 1) < 1 / a" using na lo by linarith
  then have p2: "a < 1 / 2 ^ (k - 1)"
    using assms by (simp add: field_simps)
  have "pow2 (ilog2 a) = 1 / 2 ^ k" by (simp only: e(1) pow2_neg_nat)
  moreover have "pow2 (ilog2 a + 1) = 1 / 2 ^ (k - 1)" by (simp only: e(2) pow2_neg_nat)
  ultimately show ?thesis
    using p1 p2 by simp
qed

lemma ilog2_bounds:
  "0 < a \<Longrightarrow> pow2 (ilog2 a) \<le> a \<and> a < pow2 (ilog2 a + 1)"
  using ilog2_bounds_ge1 [of a] ilog2_bounds_lt1 [of a] by (cases "1 \<le> a") auto

lemma ilog2_unique:
  assumes "0 < a" "pow2 e \<le> a" "a < pow2 (e + 1)"
  shows "ilog2 a = e"
proof -
  have b: "pow2 (ilog2 a) \<le> a" "a < pow2 (ilog2 a + 1)"
    using ilog2_bounds [OF assms(1)] by simp_all
  have "pow2 e < pow2 (ilog2 a + 1)" using assms b by linarith
  then have "e < ilog2 a + 1"
    using pow2_mono [of "ilog2 a + 1" e] by (cases "e < ilog2 a + 1") auto
  moreover have "pow2 (ilog2 a) < pow2 (e + 1)" using assms b by linarith
  then have "ilog2 a < e + 1"
    using pow2_mono [of "e + 1" "ilog2 a"] by (cases "ilog2 a < e + 1") auto
  ultimately show ?thesis by simp
qed


lemma rne_le: "of_int (rne x) \<le> x + 1 / 2"
  unfolding rne_def Let_def by (simp; linarith)

lemma rne_ge: "x - 1 / 2 \<le> of_int (rne x)"
  unfolding rne_def Let_def by (simp; linarith)

lemma rne_nonneg: "0 \<le> x \<Longrightarrow> 0 \<le> rne x"
  unfolding rne_def Let_def by (simp; linarith)

lemma rne_le_int: "x \<le> of_int n \<Longrightarrow> rne x \<le> n"
  unfolding rne_def Let_def by (simp; linarith)

lemma rne_of_int: "rne (of_int n) = n"
  unfolding rne_def Let_def by simp

lemma round_double_normal:
  assumes "0 < a" "pow2 e \<le> a" "a < pow2 (e + 1)" "- 1022 \<le> e" "e \<le> 1022"
  shows "round_double a = Fin (of_int (rne (a / pow2 (e - 52))) * pow2 (e - 52))"
proof -
  define u where "u = pow2 (e - 52)"
  have u_pos: "0 < u" by (simp add: u_def pow2_pos)
  have il: "ilog2 a = e" using assms(1-3) by (rule ilog2_unique)
  have "pow2 (e + 1) = u * 2 ^ 53"
    by (simp add: u_def pow2_def power_int_diff power_int_add)
  then have "a / u \<le> of_int (2 ^ 53)"
    using assms(3) u_pos by (simp add: field_simps)
  then have "rne (a / u) \<le> 2 ^ 53" by (rule rne_le_int)
  then have "(of_int (rne (a / u)) :: rat) \<le> of_int (2 ^ 53)" by (simp only: of_int_le_iff)
  then have "of_int (rne (a / u)) * u \<le> 2 ^ 53 * u"
    using u_pos by simp
  also have "\<dots> = pow2 (e + 1)"
    by (simp add: u_def pow2_def power_int_diff power_int_add)
  also have "\<dots> \<le> pow2 1023" using assms(5) by (intro pow2_mono) simp
  also have "\<dots> < pow2 1024" by (simp add: pow2_def)
  finally have "\<not> pow2 1024 \<le> of_int (rne (a / u)) * u" by simp
  moreover have "max e (- 1022) = e" using assms(4) by simp
  ultimately show ?thesis
    using assms(1) by (simp add: round_double_def il Let_def u_def)
qed

lemma round_double_nonneg: "0 \<le> x \<Longrightarrow> round_double x = Fin y \<Longrightarrow> 0 \<le> y"
  by (auto simp: round_double_def Let_def pow2_pos rne_nonneg less_imp_le
      split: if_splits intro!: mult_nonneg_nonneg divide_nonneg_nonneg)

lemma round_double_upper:
  assumes "0 < a" "round_double a = Fin y"
  shows "y \<le> a + a / 2 ^ 53 + 1 / 2 ^ 1075"
proof -
  define e where "e = max (ilog2 a) (- 1022)"
  define u where "u = pow2 (e - 52)"
  have u_pos: "0 < u" by (simp add: u_def pow2_pos)
  have y: "y = of_int (rne (a / u)) * u"
    using assms by (simp add: round_double_def Let_def e_def u_def split: if_splits)
  have "of_int (rne (a / u)) * u \<le> (a / u + 1 / 2) * u"
    using rne_le [of "a / u"] u_pos by simp
  also have "\<dots> = a + u / 2" using u_pos by (simp add: field_simps)
  finally have y_le: "y \<le> a + u / 2" unfolding y .
  have "u / 2 \<le> a / 2 ^ 53 + 1 / 2 ^ 1075"
  proof (cases "- 1022 \<le> ilog2 a")
    case True
    then have "u = pow2 (ilog2 a) / 2 ^ 52"
      by (simp add: u_def e_def max_def pow2_def power_int_diff)
    moreover have "pow2 (ilog2 a) \<le> a" using ilog2_bounds [OF assms(1)] by simp
    ultimately have "u \<le> a / 2 ^ 52" by (simp add: divide_right_mono)
    then show ?thesis by simp
  next
    case False
    then have "u = 1 / 2 ^ 1074"
      by (simp add: u_def e_def max_def pow2_def power_int_minus_divide)
    then show ?thesis using assms(1) by simp
  qed
  then show ?thesis using y_le by linarith
qed

lemma floor_rat_numeral:
  "\<lfloor>(numeral a / numeral b :: rat)\<rfloor> = numeral a div numeral b"
  by (metis floor_divide_of_int_eq of_int_numeral)

subsection \<open>Arithmetic on floats\<close>

definition dsign :: "double \<Rightarrow> int" where
  "dsign x = (case x of Fin a \<Rightarrow> (if 0 < a then 1 else if a < 0 then - 1 else 0)
                       | PInf \<Rightarrow> 1 | NInf \<Rightarrow> - 1 | NaN \<Rightarrow> 0)"

text \<open>\<^verbatim>\<open>x * y\<close> on floats: an infinity times zero, and anything with a NaN, is NaN.\<close>

definition fmul :: "double \<Rightarrow> double \<Rightarrow> double" where
  "fmul x y =
     (case (x, y) of
        (Fin a, Fin b) \<Rightarrow> round_double (a * b)
      | _ \<Rightarrow> if x = NaN \<or> y = NaN \<or> dsign x * dsign y = 0 then NaN
             else if 0 < dsign x * dsign y then PInf else NInf)"

text \<open>\<^verbatim>\<open>x / y\<close> on floats: Python raises ZeroDivisionError where IEEE returns an infinity.\<close>

definition py_truediv :: "double \<Rightarrow> double \<Rightarrow> exn + double" where
  "py_truediv x y =
     (case y of
        Fin b \<Rightarrow>
          if b = 0 then Inl (Exception ''float division by zero'')
          else (case x of
                  Fin a \<Rightarrow> Inr (round_double (a / b))
                | NaN \<Rightarrow> Inr NaN
                | _ \<Rightarrow> Inr (if 0 < dsign x * dsign y then PInf else NInf))
      | NaN \<Rightarrow> Inr NaN
      | _ \<Rightarrow> (case x of Fin a \<Rightarrow> Inr (Fin 0) | _ \<Rightarrow> Inr NaN))"

text \<open>\<^verbatim>\<open>int(x)\<close> of a float truncates towards zero, and raises on an infinity or a NaN.\<close>

definition trunc :: "rat \<Rightarrow> int" where
  "trunc x = (if 0 \<le> x then \<lfloor>x\<rfloor> else - \<lfloor>- x\<rfloor>)"

definition py_int_of_float :: "double \<Rightarrow> exn + int" where
  "py_int_of_float x =
     (case x of
        Fin a \<Rightarrow> Inr (trunc a)
      | NaN \<Rightarrow> Inl (Exception ''cannot convert float NaN to integer'')
      | _ \<Rightarrow> Inl (Exception ''cannot convert float infinity to integer''))"

text \<open>\<^verbatim>\<open>float(n)\<close> of an int is correctly rounded, and raises where it would overflow.\<close>

definition py_float_of_int :: "int \<Rightarrow> exn + double" where
  "py_float_of_int n =
     (case round_double (of_int n) of
        Fin a \<Rightarrow> Inr (Fin a)
      | _ \<Rightarrow> Inl (Exception ''int too large to convert to float''))"

subsection \<open>\<^verbatim>\<open>float(str)\<close>\<close>

text \<open>
  \<^verbatim>\<open>floatvalue ::= [sign] (floatnumber | "inf" | "infinity" | "nan")\<close>, letters in
  either case, between optional white space, with
  \<^verbatim>\<open>floatnumber ::= ([digitpart] "." digitpart | digitpart ["."]) [("e" | "E") [sign] digitpart]\<close>.
  The value is correctly rounded; a number too large is an infinity, not an error.
\<close>

definition word_ci :: "string \<Rightarrow> string \<Rightarrow> string \<Rightarrow> bool" where
  "word_ci lo up s =
     (length s = length lo \<and> list_all (\<lambda>(c, l, u). c = l \<or> c = u) (zip s (zip lo up)))"

definition is_inf_word :: "string \<Rightarrow> bool" where
  "is_inf_word s = (word_ci ''inf'' ''INF'' s \<or> word_ci ''infinity'' ''INFINITY'' s)"

definition is_nan_word :: "string \<Rightarrow> bool" where
  "is_nan_word s = word_ci ''nan'' ''NAN'' s"

definition parse_exponent :: "string \<Rightarrow> int option" where
  "parse_exponent r =
     (case r of
        [] \<Rightarrow> Some 0
      | c # cs \<Rightarrow>
          if c = CHR ''e'' \<or> c = CHR ''E'' then
            (case take_sign cs of (neg, r') \<Rightarrow>
               (case digitpart r' of
                  None \<Rightarrow> None
                | Some (es, rest) \<Rightarrow>
                    if rest = [] then Some (if neg then - int (digits_value es)
                                            else int (digits_value es))
                    else None))
          else None)"

definition decimal_value :: "nat list \<Rightarrow> nat list \<Rightarrow> int \<Rightarrow> rat" where
  "decimal_value ds fs ex = of_nat (digits_value (ds @ fs)) * 10 powi (ex - int (length fs))"

definition parse_number :: "string \<Rightarrow> rat option" where
  "parse_number r =
     (case digitpart r of
        Some (ds, rest) \<Rightarrow>
          (case rest of
             [] \<Rightarrow> Some (decimal_value ds [] 0)
           | c # rest' \<Rightarrow>
               if c = CHR ''.'' then
                 (case digitpart rest' of
                    Some (fs, rest'') \<Rightarrow> map_option (decimal_value ds fs) (parse_exponent rest'')
                  | None \<Rightarrow> map_option (decimal_value ds []) (parse_exponent rest'))
               else map_option (decimal_value ds []) (parse_exponent rest))
      | None \<Rightarrow>
          (case r of
             [] \<Rightarrow> None
           | c # rest' \<Rightarrow>
               if c = CHR ''.'' then
                 (case digitpart rest' of
                    Some (fs, rest'') \<Rightarrow> map_option (decimal_value [] fs) (parse_exponent rest'')
                  | None \<Rightarrow> None)
               else None))"

definition py_float_of_str :: "string \<Rightarrow> exn + double" where
  "py_float_of_str s =
     (case take_sign (strip s) of (neg, r) \<Rightarrow>
        if is_inf_word r then Inr (if neg then NInf else PInf)
        else if is_nan_word r then Inr NaN
        else (case parse_number r of
                Some x \<Rightarrow> Inr (round_double (if neg then - x else x))
              | None \<Rightarrow> Inl (Exception (''could not convert string to float: '' @ py_repr s))))"

text \<open>The float literals of the source, each the double nearest to its decimal.\<close>

definition lit_0_03 :: double where "lit_0_03 = round_double (3 / 100)"
definition lit_0_99 :: double where "lit_0_99 = round_double (99 / 100)"
definition lit_1e18 :: double where "lit_1e18 = round_double (10 ^ 18)"
definition lit_1e6 :: double where "lit_1e6 = round_double (10 ^ 6)"

lemma lit_0_03_val: "lit_0_03 = Fin (1080863910568919 / 36028797018963968)"
  unfolding lit_0_03_def
  by (subst round_double_normal [where e = "- 6"])
     (simp_all add: pow2_def rne_def Let_def floor_rat_numeral)

lemma lit_0_99_val: "lit_0_99 = Fin (4458563631096791 / 4503599627370496)"
  unfolding lit_0_99_def
  by (subst round_double_normal [where e = "- 1"])
     (simp_all add: pow2_def rne_def Let_def floor_rat_numeral)

lemma lit_1e18_val: "lit_1e18 = Fin (10 ^ 18)"
  unfolding lit_1e18_def
  by (subst round_double_normal [where e = 59])
     (simp_all add: pow2_def rne_def Let_def floor_rat_numeral)

lemma lit_1e6_val: "lit_1e6 = Fin (10 ^ 6)"
  unfolding lit_1e6_def
  by (subst round_double_normal [where e = 19])
     (simp_all add: pow2_def rne_def Let_def floor_rat_numeral)

section \<open>The collaborators\<close>

text \<open>
  What \<^verbatim>\<open>gift.py\<close> imports and calls is not part of it: the wallet of the CDP SDK, the
  quote functions of \<^verbatim>\<open>wow.utils\<close>, \<^verbatim>\<open>WOW_ABI\<close>, \<^verbatim>\<open>Web3.from_wei\<close>. They are
  parameters of the model. A quote is an amount of tokens or of wei, read from a contract
  as a \<^verbatim>\<open>uint256\<close> (the source annotates it \<^verbatim>\<open>int\<close>), hence a \<open>nat\<close>. Every call can
  raise. \<open>from_wei\<close> is \<^verbatim>\<open>Web3.from_wei(n, 'ether')\<close> as an f-string prints it,
  \<open>float_str\<close> is \<^verbatim>\<open>str\<close> of a float.
\<close>

record wallet =
  network_id :: string
  default_address :: "string option"

datatype pyval = PyStr string | PyInt int

datatype abi_entry =
  AbiFunction (abi_name: string) (abi_inputs: "(string \<times> string) list")
    (abi_outputs: "(string \<times> string) list") (abi_stateMutability: string)

datatype abi = WOW_ABI | AbiEntries "abi_entry list"

record invocation =
  contract_address :: string
  "method" :: string
  abi :: abi
  args :: "(string \<times> pyval) list"
  amount :: "string option"
  asset_id :: "string option"

record tx =
  transaction_hash :: string
  transaction_link :: string

record env =
  get_buy_quote :: "string \<Rightarrow> string \<Rightarrow> string \<Rightarrow> exn + nat"
  get_sell_quote :: "string \<Rightarrow> string \<Rightarrow> string \<Rightarrow> exn + nat"
  invoke_contract :: "invocation \<Rightarrow> exn option"
  wait :: "invocation \<Rightarrow> exn + tx"
  from_wei :: "int \<Rightarrow> exn + string"
  float_str :: "double \<Rightarrow> string"
  int_max_str_digits :: nat

text \<open>
  A run leaves a trace: every call of a collaborator that acts on the network, in order,
  with what it answered. \<open>InvokeContract\<close> is \<^verbatim>\<open>wallet.invoke_contract(...)\<close>, which
  submits the transaction; \<open>Wait\<close> is \<^verbatim>\<open>.wait()\<close> on what it returned, which returns
  once the transaction is complete.
\<close>

datatype event =
    GetBuyQuote string string string "exn + nat"
  | InvokeContract invocation "exn option"
  | Wait invocation "exn + tx"
  | GetSellQuote string string string "exn + nat"

type_synonym 'a run = "(exn + 'a) \<times> event list"

definition pure_run :: "exn + 'a \<Rightarrow> 'a run" where
  "pure_run r = (r, [])"

definition bind_run :: "'a run \<Rightarrow> ('a \<Rightarrow> 'b run) \<Rightarrow> 'b run" where
  "bind_run m f =
     (case m of
        (Inl e, t) \<Rightarrow> (Inl e, t)
      | (Inr v, t) \<Rightarrow> (case f v of (r, t') \<Rightarrow> (r, t @ t')))"

definition call_get_buy_quote :: "env \<Rightarrow> string \<Rightarrow> string \<Rightarrow> string \<Rightarrow> nat run" where
  "call_get_buy_quote E n m a = (get_buy_quote E n m a, [GetBuyQuote n m a (get_buy_quote E n m a)])"

definition call_get_sell_quote :: "env \<Rightarrow> string \<Rightarrow> string \<Rightarrow> string \<Rightarrow> nat run" where
  "call_get_sell_quote E n m a = (get_sell_quote E n m a, [GetSellQuote n m a (get_sell_quote E n m a)])"

definition call_invoke_contract :: "env \<Rightarrow> invocation \<Rightarrow> invocation run" where
  "call_invoke_contract E c =
     (case invoke_contract E c of
        None \<Rightarrow> (Inr c, [InvokeContract c None])
      | Some e \<Rightarrow> (Inl e, [InvokeContract c (Some e)]))"

definition call_wait :: "env \<Rightarrow> invocation \<Rightarrow> tx run" where
  "call_wait E c = (wait E c, [Wait c (wait E c)])"

section \<open>The source: \<^verbatim>\<open>gift.py\<close>\<close>

definition GIFT_ESCROW_ABI :: abi where
  "GIFT_ESCROW_ABI = AbiEntries
     [AbiFunction ''createGift''
        [(''token'', ''address''), (''recipient'', ''address''), (''giver'', ''address''),
         (''redeemableUsdcAmount'', ''uint256''), (''initialBuyPrice'', ''uint256'')]
        [(''giftId'', ''uint256'')] ''payable'',
      AbiFunction ''redeemGift''
        [(''giftId'', ''uint256''), (''choice'', ''uint8'')]
        [] ''nonpayable'']"

definition nl :: string where
  "nl = [CHR 0x0A]"

definition GIFT_TRANSFER_PROMPT :: string where
  "GIFT_TRANSFER_PROMPT =
     nl @ ''This tool enables gift transfer of a memecoin with a fixed USDC redemption option. The sender buys '' @
     nl @ ''the memecoin which is locked in escrow, and the recipient can choose to either:'' @
     nl @ ''1. Receive the memecoin'' @
     nl @ ''2. Receive the fixed USDC amount (equal to sender'' @ [CHR 0x27] @ ''s initial buy price)'' @
     nl @ ''An NFT receipt is minted upon redemption showing whether the sender profited or lost based on '' @
     nl @ ''the memecoin'' @ [CHR 0x27] @ ''s current value.''"

text \<open>A field of the pydantic model: its name, its type, whether it is required, its description.\<close>

record field =
  field_name :: string
  field_type :: string
  required :: bool
  field_description :: string

definition GiftTransferInput :: "field list" where
  "GiftTransferInput =
     [\<lparr>field_name = ''amount_eth_in_wei'', field_type = ''str'', required = True,
        field_description = ''Amount of ETH to spend on memecoin (in wei)''\<rparr>,
      \<lparr>field_name = ''memecoin_address'', field_type = ''str'', required = True,
        field_description = ''The memecoin token address to purchase and gift''\<rparr>,
      \<lparr>field_name = ''recipient'', field_type = ''str'', required = True,
        field_description = ''The address to receive the gift''\<rparr>,
      \<lparr>field_name = ''giver'', field_type = ''str'', required = True,
        field_description = ''The address sending the gift''\<rparr>]"

definition eth_price_in_usdc :: int where
  "eth_price_in_usdc = 2000"

definition get_current_usdc_price :: "env \<Rightarrow> string \<Rightarrow> string \<Rightarrow> nat \<Rightarrow> int run" where
  "get_current_usdc_price E network memecoin_address token_amount =
     bind_run (call_get_sell_quote E network memecoin_address (str_int (int token_amount)))
       (\<lambda>sell_quote.
     bind_run (pure_run (py_float_of_int (int sell_quote))) (\<lambda>f.
     bind_run (pure_run (py_truediv f lit_1e18)) (\<lambda>eth.
     bind_run (pure_run (py_float_of_int eth_price_in_usdc)) (\<lambda>price.
     pure_run (py_int_of_float (fmul (fmul eth price) lit_1e6))))))"

definition escrow_address :: string where
  "escrow_address = ''0x...''"

definition address_id_of :: "string option \<Rightarrow> exn + string" where
  "address_id_of a =
     (case a of
        Some i \<Rightarrow> Inr i
      | None \<Rightarrow> Inl (Exception
          ([CHR 0x27] @ ''NoneType'' @ [CHR 0x27] @ '' object has no attribute ''
           @ [CHR 0x27] @ ''address_id'' @ [CHR 0x27])))"

definition buy_invocation ::
  "string \<Rightarrow> string \<Rightarrow> string \<Rightarrow> int \<Rightarrow> string \<Rightarrow> invocation" where
  "buy_invocation memecoin_address refund recipient min_order total_eth_required =
     \<lparr>contract_address = memecoin_address,
      method = ''buy'',
      abi = WOW_ABI,
      args =
        [(''recipient'', PyStr escrow_address),
         (''refundRecipient'', PyStr refund),
         (''orderReferrer'', PyStr ''0x0000000000000000000000000000000000000000''),
         (''expectedMarketType'', PyStr ''0''),
         (''minOrderSize'', PyStr (str_int min_order)),
         (''sqrtPriceLimitX96'', PyStr ''0''),
         (''comment'', PyStr (''Gift purchase for '' @ recipient))],
      amount = Some total_eth_required,
      asset_id = Some ''wei''\<rparr>"

definition gift_invocation ::
  "string \<Rightarrow> string \<Rightarrow> string \<Rightarrow> int \<Rightarrow> string \<Rightarrow> invocation" where
  "gift_invocation memecoin_address recipient giver usdc_price amount_eth_in_wei =
     \<lparr>contract_address = escrow_address,
      method = ''createGift'',
      abi = GIFT_ESCROW_ABI,
      args =
        [(''token'', PyStr memecoin_address),
         (''recipient'', PyStr recipient),
         (''giver'', PyStr giver),
         (''redeemableUsdcAmount'', PyInt usdc_price),
         (''initialBuyPrice'', PyStr amount_eth_in_wei)],
      amount = None,
      asset_id = None\<rparr>"

definition success_message ::
  "nat \<Rightarrow> string \<Rightarrow> string \<Rightarrow> string \<Rightarrow> string \<Rightarrow> string \<Rightarrow> string \<Rightarrow> tx \<Rightarrow> string" where
  "success_message token_quote memecoin_address giver recipient spent fee usdc gift_result =
     ''Created gift transfer with fixed USDC redemption:'' @ nl @
     ''- Purchased '' @ str_int (int token_quote) @ '' tokens of '' @ memecoin_address @ nl @
     ''- From: '' @ giver @ nl @
     ''- To: '' @ recipient @ nl @
     ''- Initial ETH spent: '' @ spent @ '' ETH'' @ nl @
     ''- Platform fee: '' @ fee @ '' ETH'' @ nl @
     ''- Fixed USDC redemption value: '' @ usdc @ '' USDC'' @ nl @
     ''- Recipient can choose to receive either:'' @ nl @
     ''  1. The memecoin tokens'' @ nl @
     ''  2. The fixed USDC amount'' @ nl @
     ''Gift creation tx: '' @ transaction_hash gift_result @ nl @
     ''Transaction link: '' @ transaction_link gift_result"

text \<open>The body of the \<^verbatim>\<open>try\<close>, statement by statement, in the order Python evaluates it.\<close>

definition gift_transfer_body ::
  "env \<Rightarrow> wallet \<Rightarrow> string \<Rightarrow> string \<Rightarrow> string \<Rightarrow> string \<Rightarrow> string run" where
  "gift_transfer_body E w amount_eth_in_wei memecoin_address recipient giver =
     bind_run (call_get_buy_quote E (network_id w) memecoin_address amount_eth_in_wei)
       (\<lambda>token_quote.
     bind_run (pure_run (py_float_of_str amount_eth_in_wei)) (\<lambda>amount_f.
     bind_run (pure_run (py_int_of_float (fmul amount_f lit_0_03))) (\<lambda>platform_fee.
     bind_run (pure_run (py_int_of_str (int_max_str_digits E) amount_eth_in_wei)) (\<lambda>amount_i.
     bind_run (pure_run (address_id_of (default_address w))) (\<lambda>refund.
     bind_run (pure_run (py_float_of_int (int token_quote))) (\<lambda>quote_f.
     bind_run (pure_run (py_int_of_float (fmul quote_f lit_0_99))) (\<lambda>min_order.
     bind_run (call_invoke_contract E
         (buy_invocation memecoin_address refund recipient min_order
            (str_int (amount_i + platform_fee)))) (\<lambda>buy.
     bind_run (call_wait E buy) (\<lambda>buy_result.
     bind_run (get_current_usdc_price E (network_id w) memecoin_address token_quote)
       (\<lambda>usdc_price.
     bind_run (call_invoke_contract E
         (gift_invocation memecoin_address recipient giver usdc_price amount_eth_in_wei))
       (\<lambda>gift.
     bind_run (call_wait E gift) (\<lambda>gift_result.
     bind_run (pure_run (py_int_of_str (int_max_str_digits E) amount_eth_in_wei)) (\<lambda>amount_j.
     bind_run (pure_run (from_wei E amount_j)) (\<lambda>spent.
     bind_run (pure_run (from_wei E platform_fee)) (\<lambda>fee.
     bind_run (pure_run (py_float_of_int usdc_price)) (\<lambda>usdc_f.
     bind_run (pure_run (py_truediv usdc_f lit_1e6)) (\<lambda>usdc.
     pure_run (Inr (success_message token_quote memecoin_address giver recipient
                      spent fee (float_str E usdc) gift_result)))))))))))))))))))"

text \<open>
  \<^verbatim>\<open>except Exception as e: return f"Error in gift transfer: {str(e)}"\<close>. What is not an
  \<^verbatim>\<open>Exception\<close> is not caught and leaves the function.
\<close>

datatype outcome = Returned string | Raised exn

definition gift_transfer ::
  "env \<Rightarrow> wallet \<Rightarrow> string \<Rightarrow> string \<Rightarrow> string \<Rightarrow> string \<Rightarrow> outcome \<times> event list" where
  "gift_transfer E w amount_eth_in_wei memecoin_address recipient giver =
     (case gift_transfer_body E w amount_eth_in_wei memecoin_address recipient giver of
        (Inr s, t) \<Rightarrow> (Returned s, t)
      | (Inl (Exception msg), t) \<Rightarrow> (Returned (''Error in gift transfer: '' @ msg), t)
      | (Inl (BaseException msg), t) \<Rightarrow> (Raised (BaseException msg), t))"

record action =
  name :: string
  description :: string
  args_schema :: "field list option"
  func :: "env \<Rightarrow> wallet \<Rightarrow> string \<Rightarrow> string \<Rightarrow> string \<Rightarrow> string \<Rightarrow> outcome \<times> event list"

definition GiftTransferAction :: action where
  "GiftTransferAction =
     \<lparr>name = ''gift_transfer'',
      description = GIFT_TRANSFER_PROMPT,
      args_schema = Some GiftTransferInput,
      func = gift_transfer\<rparr>"

section \<open>Reasoning about runs\<close>

lemma snd_pure_run [simp]: "snd (pure_run r) = []"
  by (simp add: pure_run_def)

lemma fst_pure_run [simp]: "fst (pure_run r) = r"
  by (simp add: pure_run_def)

lemma in_bind_run:
  "x \<in> set (snd (bind_run m f)) \<longleftrightarrow>
     x \<in> set (snd m) \<or> (\<exists>v. fst m = Inr v \<and> x \<in> set (snd (f v)))"
  by (auto simp: bind_run_def split: prod.splits sum.splits)

lemma fst_bind_run_Inr:
  "fst (bind_run m f) = Inr y \<longleftrightarrow> (\<exists>v. fst m = Inr v \<and> fst (f v) = Inr y)"
  by (auto simp: bind_run_def split: prod.splits sum.splits)

lemma bind_run_Inl: "fst m = Inl e \<Longrightarrow> bind_run m f = m"
  by (cases m) (simp add: bind_run_def)

lemma bind_run_Inr: "fst m = Inr v \<Longrightarrow> bind_run m f = (fst (f v), snd m @ snd (f v))"
  by (cases m) (simp add: bind_run_def split: prod.splits)

lemma bind_run_pair_Inr: "bind_run (Inr v, t) f = (fst (f v), t @ snd (f v))"
  by (simp add: bind_run_def split: prod.splits)

lemma bind_run_pair_Inl: "bind_run (Inl e, t) f = (Inl e, t)"
  by (simp add: bind_run_def)

lemmas run_simps =
  bind_run_pair_Inr bind_run_pair_Inl call_get_buy_quote_def call_get_sell_quote_def
  call_invoke_contract_def call_wait_def

lemma bind_pure_Inr [simp]: "bind_run (pure_run (Inr v)) f = f v"
  by (simp add: bind_run_def pure_run_def split: prod.splits)

lemma bind_pure_Inl [simp]: "bind_run (pure_run (Inl e)) f = (Inl e, [])"
  by (simp add: bind_run_def pure_run_def)

lemma snd_call_get_buy_quote [simp]:
  "snd (call_get_buy_quote E n m a) = [GetBuyQuote n m a (get_buy_quote E n m a)]"
  by (simp add: call_get_buy_quote_def)

lemma fst_call_get_buy_quote [simp]:
  "fst (call_get_buy_quote E n m a) = get_buy_quote E n m a"
  by (simp add: call_get_buy_quote_def)

lemma snd_call_get_sell_quote [simp]:
  "snd (call_get_sell_quote E n m a) = [GetSellQuote n m a (get_sell_quote E n m a)]"
  by (simp add: call_get_sell_quote_def)

lemma fst_call_get_sell_quote [simp]:
  "fst (call_get_sell_quote E n m a) = get_sell_quote E n m a"
  by (simp add: call_get_sell_quote_def)

lemma snd_call_invoke_contract [simp]:
  "snd (call_invoke_contract E c) = [InvokeContract c (invoke_contract E c)]"
  by (simp add: call_invoke_contract_def split: option.splits)

lemma fst_call_invoke_contract [simp]:
  "fst (call_invoke_contract E c) = Inr v \<longleftrightarrow> v = c \<and> invoke_contract E c = None"
  by (auto simp add: call_invoke_contract_def split: option.splits)

lemma snd_call_wait [simp]: "snd (call_wait E c) = [Wait c (wait E c)]"
  by (simp add: call_wait_def)

lemma fst_call_wait [simp]: "fst (call_wait E c) = wait E c"
  by (simp add: call_wait_def)

lemma snd_gift_transfer:
  "snd (gift_transfer E w a m r g) = snd (gift_transfer_body E w a m r g)"
  by (simp add: gift_transfer_def split: prod.splits sum.splits exn.splits)

text \<open>
  Every contract invocation of a run is the purchase or the deposit, built from what the
  earlier statements computed.
\<close>

lemma invoke_in_body:
  assumes "InvokeContract c res \<in> set (snd (gift_transfer_body E w a m r g))"
  shows "(\<exists>q x fee n refund qf mo.
            get_buy_quote E (network_id w) m a = Inr q \<and>
            py_float_of_str a = Inr x \<and>
            py_int_of_float (fmul x lit_0_03) = Inr fee \<and>
            py_int_of_str (int_max_str_digits E) a = Inr n \<and>
            address_id_of (default_address w) = Inr refund \<and>
            py_float_of_int (int q) = Inr qf \<and>
            py_int_of_float (fmul qf lit_0_99) = Inr mo \<and>
            c = buy_invocation m refund r mo (str_int (n + fee)))
       \<or> (\<exists>q u x n. get_buy_quote E (network_id w) m a = Inr q \<and>
             fst (get_current_usdc_price E (network_id w) m q) = Inr u \<and>
             py_float_of_str a = Inr x \<and>
             py_int_of_str (int_max_str_digits E) a = Inr n \<and>
             c = gift_invocation m r g u a)"
  using assms
  by (auto simp: gift_transfer_body_def get_current_usdc_price_def in_bind_run fst_bind_run_Inr)

section \<open>A run that succeeds\<close>

text \<open>
  One ether for a token quoted at a million units, which sell for half an ether; every
  transaction goes through.
\<close>

definition tx_ok :: tx where
  "tx_ok = \<lparr>transaction_hash = ''0xabc'', transaction_link = ''https://example.org/tx/0xabc''\<rparr>"

definition E_ok :: env where
  "E_ok =
     \<lparr>get_buy_quote = (\<lambda>_ _ _. Inr 1000000),
      get_sell_quote = (\<lambda>_ _ _. Inr 500000000000000000),
      invoke_contract = (\<lambda>_. None),
      wait = (\<lambda>_. Inr tx_ok),
      from_wei = (\<lambda>n. Inr (if n = 1000000000000000000 then ''1''
                            else if n = 30000000000000000 then ''0.03'' else ''0'')),
      float_str = (\<lambda>_. ''1000.0''),
      int_max_str_digits = 4300\<rparr>"

definition w_ok :: wallet where
  "w_ok = \<lparr>network_id = ''base-sepolia'', default_address = Some ''0xGiver''\<rparr>"

definition buy_ok :: invocation where
  "buy_ok = buy_invocation ''0xToken'' ''0xGiver'' ''0xBob'' 990000 ''1030000000000000000''"

definition gift_ok :: invocation where
  "gift_ok = gift_invocation ''0xToken'' ''0xBob'' ''0xAlice'' 1000000000 ''1000000000000000000''"

definition trace_ok :: "event list" where
  "trace_ok =
     [GetBuyQuote ''base-sepolia'' ''0xToken'' ''1000000000000000000'' (Inr 1000000),
      InvokeContract buy_ok None,
      Wait buy_ok (Inr tx_ok),
      GetSellQuote ''base-sepolia'' ''0xToken'' ''1000000'' (Inr 500000000000000000),
      InvokeContract gift_ok None,
      Wait gift_ok (Inr tx_ok)]"

lemmas parse_simps =
  strip_def is_space_def take_sign_def digitpart_def is_digit_def digit_val_def
  digits_value_def decimal_value_def parse_number_def parse_exponent_def
  is_inf_word_def is_nan_word_def word_ci_def

lemmas round_simps = pow2_def rne_def Let_def floor_rat_numeral

lemmas str_simps = str_int_def str_nat.simps digit_char_def

lemma ok_float_amount: "py_float_of_str ''1000000000000000000'' = Inr (Fin 1000000000000000000)"
  unfolding py_float_of_str_def
  apply (simp add: parse_simps)
  by (subst round_double_normal [where e = 59]) (simp_all add: round_simps)

lemma ok_int_amount: "py_int_of_str 4300 ''1000000000000000000'' = Inr 1000000000000000000"
  by (simp add: py_int_of_str_def parse_simps)

lemma ok_fee: "py_int_of_float (fmul (Fin 1000000000000000000) lit_0_03) = Inr 30000000000000000"
  unfolding fmul_def lit_0_03_val py_int_of_float_def
  apply simp
  by (subst round_double_normal [where e = 54]) (simp_all add: round_simps trunc_def)

lemma ok_float_quote: "py_float_of_int 1000000 = Inr (Fin 1000000)"
  unfolding py_float_of_int_def
  apply simp
  by (subst round_double_normal [where e = 19]) (simp_all add: round_simps)

lemma ok_min_order: "py_int_of_float (fmul (Fin 1000000) lit_0_99) = Inr 990000"
  unfolding fmul_def lit_0_99_val py_int_of_float_def
  apply simp
  by (subst round_double_normal [where e = 19]) (simp_all add: round_simps trunc_def)

lemma ok_float_sell: "py_float_of_int 500000000000000000 = Inr (Fin 500000000000000000)"
  unfolding py_float_of_int_def
  apply simp
  by (subst round_double_normal [where e = 58]) (simp_all add: round_simps)

lemma ok_eth: "py_truediv (Fin 500000000000000000) lit_1e18 = Inr (Fin (1 / 2))"
  unfolding py_truediv_def lit_1e18_val
  apply simp
  by (subst round_double_normal [where e = "- 1"]) (simp_all add: round_simps)

lemma ok_float_price: "py_float_of_int eth_price_in_usdc = Inr (Fin 2000)"
  unfolding py_float_of_int_def eth_price_in_usdc_def
  apply simp
  by (subst round_double_normal [where e = 10]) (simp_all add: round_simps)

lemma ok_usdc_eth: "fmul (Fin (1 / 2)) (Fin 2000) = Fin 1000"
  unfolding fmul_def
  apply simp
  by (subst round_double_normal [where e = 9]) (simp_all add: round_simps)

lemma ok_usdc: "py_int_of_float (fmul (Fin 1000) lit_1e6) = Inr 1000000000"
  unfolding fmul_def lit_1e6_val py_int_of_float_def
  apply simp
  by (subst round_double_normal [where e = 29]) (simp_all add: round_simps trunc_def)

lemma ok_float_usdc: "py_float_of_int 1000000000 = Inr (Fin 1000000000)"
  unfolding py_float_of_int_def
  apply simp
  by (subst round_double_normal [where e = 29]) (simp_all add: round_simps)

lemma ok_usdc_units: "py_truediv (Fin 1000000000) lit_1e6 = Inr (Fin 1000)"
  unfolding py_truediv_def lit_1e6_val
  apply simp
  by (subst round_double_normal [where e = 9]) (simp_all add: round_simps)

lemma ok_price:
  "get_current_usdc_price E_ok ''base-sepolia'' ''0xToken'' 1000000 =
     (Inr 1000000000,
      [GetSellQuote ''base-sepolia'' ''0xToken'' ''1000000'' (Inr 500000000000000000)])"
  by (simp add: get_current_usdc_price_def run_simps E_ok_def str_simps
      ok_float_sell ok_eth ok_float_price ok_usdc_eth ok_usdc)

lemma ok_body:
  "gift_transfer_body E_ok w_ok ''1000000000000000000'' ''0xToken'' ''0xBob'' ''0xAlice'' =
     (Inr (success_message 1000000 ''0xToken'' ''0xAlice'' ''0xBob'' ''1'' ''0.03'' ''1000.0'' tx_ok),
      trace_ok)"
proof -
  have sel: "get_buy_quote E_ok = (\<lambda>_ _ _. Inr 1000000)" "invoke_contract E_ok = (\<lambda>_. None)"
    "wait E_ok = (\<lambda>_. Inr tx_ok)" "int_max_str_digits E_ok = 4300"
    "float_str E_ok = (\<lambda>_. ''1000.0'')"
    "from_wei E_ok 1000000000000000000 = Inr ''1''"
    "from_wei E_ok 30000000000000000 = Inr ''0.03''"
    "network_id w_ok = ''base-sepolia''" "default_address w_ok = Some ''0xGiver''"
    by (simp_all add: E_ok_def w_ok_def)
  have s: "str_int 1030000000000000000 = ''1030000000000000000''"
    by (simp add: str_simps)
  show ?thesis
    unfolding gift_transfer_body_def sel
    by (simp add: sel run_simps ok_float_amount ok_fee ok_int_amount address_id_of_def
        ok_float_quote ok_min_order s ok_price ok_float_usdc ok_usdc_units
        buy_ok_def gift_ok_def trace_ok_def)
qed

lemma ok_run:
  "gift_transfer E_ok w_ok ''1000000000000000000'' ''0xToken'' ''0xBob'' ''0xAlice'' =
     (Returned (success_message 1000000 ''0xToken'' ''0xAlice'' ''0xBob'' ''1'' ''0.03'' ''1000.0'' tx_ok),
      trace_ok)"
  by (simp add: gift_transfer_def ok_body)

section \<open>Runs that succeed\<close>

lemma bind_run_success:
  "bind_run m f = (Inr y, t) \<longleftrightarrow>
     (\<exists>v t1 t2. m = (Inr v, t1) \<and> f v = (Inr y, t2) \<and> t = t1 @ t2)"
  by (cases m) (auto simp: bind_run_def split: prod.splits sum.splits)

lemma pure_run_success: "pure_run r = (Inr y, t) \<longleftrightarrow> r = Inr y \<and> t = []"
  by (auto simp: pure_run_def)

lemma call_invoke_success:
  "call_invoke_contract E c = (Inr v, t) \<longleftrightarrow>
     invoke_contract E c = None \<and> v = c \<and> t = [InvokeContract c None]"
  by (auto simp: call_invoke_contract_def split: option.splits)

lemma call_wait_success:
  "call_wait E c = (Inr v, t) \<longleftrightarrow> wait E c = Inr v \<and> t = [Wait c (Inr v)]"
  by (auto simp: call_wait_def)

lemma call_buy_quote_success:
  "call_get_buy_quote E n m a = (Inr v, t) \<longleftrightarrow>
     get_buy_quote E n m a = Inr v \<and> t = [GetBuyQuote n m a (Inr v)]"
  by (auto simp: call_get_buy_quote_def)

lemma call_sell_quote_success:
  "call_get_sell_quote E n m a = (Inr v, t) \<longleftrightarrow>
     get_sell_quote E n m a = Inr v \<and> t = [GetSellQuote n m a (Inr v)]"
  by (auto simp: call_get_sell_quote_def)

lemmas success_simps =
  bind_run_success pure_run_success call_invoke_success call_wait_success
  call_buy_quote_success call_sell_quote_success

lemma price_success:
  assumes "get_current_usdc_price E n m q = (Inr u, t)"
  shows "\<exists>sq. get_sell_quote E n m (str_int (int q)) = Inr sq \<and>
           t = [GetSellQuote n m (str_int (int q)) (Inr sq)]"
  using assms by (auto simp: get_current_usdc_price_def success_simps)

lemma body_success:
  assumes "gift_transfer_body E w a m r g = (Inr s, t)"
  shows "\<exists>q refund mo tot tx1 sq u tx2.
           t = [GetBuyQuote (network_id w) m a (Inr q),
                InvokeContract (buy_invocation m refund r mo tot) None,
                Wait (buy_invocation m refund r mo tot) (Inr tx1),
                GetSellQuote (network_id w) m (str_int (int q)) (Inr sq),
                InvokeContract (gift_invocation m r g u a) None,
                Wait (gift_invocation m r g u a) (Inr tx2)]"
  using assms
  by (auto simp: gift_transfer_body_def success_simps dest!: price_success) blast+

section \<open>Failures end a run\<close>

definition raised :: "event \<Rightarrow> exn option" where
  "raised ev =
     (case ev of
        GetBuyQuote _ _ _ r \<Rightarrow> (case r of Inl e \<Rightarrow> Some e | Inr _ \<Rightarrow> None)
      | InvokeContract _ r \<Rightarrow> r
      | Wait _ r \<Rightarrow> (case r of Inl e \<Rightarrow> Some e | Inr _ \<Rightarrow> None)
      | GetSellQuote _ _ _ r \<Rightarrow> (case r of Inl e \<Rightarrow> Some e | Inr _ \<Rightarrow> None))"

definition run_wf :: "'a run \<Rightarrow> bool" where
  "run_wf m = (\<forall>i e. i < length (snd m) \<and> raised (snd m ! i) = Some e \<longrightarrow>
                 Suc i = length (snd m) \<and> fst m = Inl e)"

lemma run_wf_pure: "run_wf (pure_run r)"
  by (simp add: run_wf_def)

lemma run_wf_bind:
  assumes "run_wf m" "\<And>v. run_wf (f v)"
  shows "run_wf (bind_run m f)"
proof (cases m)
  case (Pair r t1)
  show ?thesis
  proof (cases r)
    case (Inl e)
    then show ?thesis using assms(1) Pair by (simp add: bind_run_def run_wf_def)
  next
    case (Inr v)
    have clean: "\<And>i e. i < length t1 \<Longrightarrow> raised (t1 ! i) \<noteq> Some e"
      using assms(1) Pair Inr by (auto simp: run_wf_def)
    obtain r2 t2 where f: "f v = (r2, t2)" by (cases "f v")
    have wf2: "run_wf (r2, t2)" using assms(2) [of v] f by simp
    have b: "bind_run m f = (r2, t1 @ t2)" using Pair Inr f by (simp add: bind_run_def)
    show ?thesis
      unfolding b run_wf_def
    proof (intro allI impI, elim conjE)
      fix i e assume i: "i < length (snd (r2, t1 @ t2))"
        and ra: "raised (snd (r2, t1 @ t2) ! i) = Some e"
      have ge: "length t1 \<le> i"
        using clean [of i e] ra by (cases "i < length t1") (auto simp: nth_append)
      then have "i - length t1 < length t2" "raised (t2 ! (i - length t1)) = Some e"
        using i ra by (auto simp: nth_append)
      then have "Suc (i - length t1) = length t2 \<and> r2 = Inl e"
        using wf2 by (auto simp: run_wf_def)
      then show "Suc i = length (snd (r2, t1 @ t2)) \<and> fst (r2, t1 @ t2) = Inl e"
        using ge by auto
    qed
  qed
qed

lemma run_wf_calls:
  "run_wf (call_get_buy_quote E n m a)" "run_wf (call_get_sell_quote E n m a)"
  "run_wf (call_invoke_contract E c)" "run_wf (call_wait E c)"
  by (auto simp: run_wf_def raised_def call_get_buy_quote_def call_get_sell_quote_def
      call_invoke_contract_def call_wait_def nth_Cons split: sum.splits option.splits nat.splits)

lemma run_wf_price: "run_wf (get_current_usdc_price E n m q)"
  unfolding get_current_usdc_price_def
  by (intro run_wf_bind run_wf_pure run_wf_calls)

lemma run_wf_body: "run_wf (gift_transfer_body E w a m r g)"
  unfolding gift_transfer_body_def
  by (intro run_wf_bind run_wf_pure run_wf_calls run_wf_price)

section \<open>The deposit comes after the purchase\<close>

definition isOK :: "exn + 'a \<Rightarrow> bool" where
  "isOK r = (case r of Inl _ \<Rightarrow> False | Inr _ \<Rightarrow> True)"

fun deposit_after_purchase :: "bool \<Rightarrow> event list \<Rightarrow> bool" where
  "deposit_after_purchase bought [] = True"
| "deposit_after_purchase bought (GetBuyQuote _ _ _ _ # t) = deposit_after_purchase bought t"
| "deposit_after_purchase bought (GetSellQuote _ _ _ _ # t) = deposit_after_purchase bought t"
| "deposit_after_purchase bought (InvokeContract c _ # t) =
     ((method c = ''createGift'' \<longrightarrow> bought) \<and> deposit_after_purchase bought t)"
| "deposit_after_purchase bought (Wait c res # t) =
     deposit_after_purchase (bought \<or> (method c = ''buy'' \<and> isOK res)) t"

lemma dap_body: "deposit_after_purchase False (snd (gift_transfer_body E w a m r g))"
  unfolding gift_transfer_body_def get_current_usdc_price_def bind_run_def pure_run_def
    call_get_buy_quote_def call_get_sell_quote_def call_invoke_contract_def call_wait_def
  by (simp add: buy_invocation_def gift_invocation_def isOK_def
      split: sum.splits option.splits prod.splits)

lemma dap_nth:
  assumes "deposit_after_purchase bought t" "j < length t" "t ! j = InvokeContract c res"
    "method c = ''createGift''"
  shows "bought \<or> (\<exists>i<j. \<exists>buy tx. t ! i = Wait buy (Inr tx) \<and> method buy = ''buy'')"
  using assms
proof (induction bought t arbitrary: j rule: deposit_after_purchase.induct)
  case (1 bought)
  then show ?case by simp
next
  case (2 bought uu uv uw ux t)
  then show ?case by (cases j) (auto, force)
next
  case (3 bought uy uz va vb t)
  then show ?case by (cases j) (auto, force)
next
  case (4 bought c' vc t)
  then show ?case by (cases j) (auto, force)
next
  case (5 bought c' res' t)
  show ?case
  proof (cases j)
    case 0
    then show ?thesis using 5 by simp
  next
    case (Suc k)
    then have "(bought \<or> (method c' = ''buy'' \<and> isOK res')) \<or>
       (\<exists>i<k. \<exists>buy tx. t ! i = Wait buy (Inr tx) \<and> method buy = ''buy'')"
      using 5 by auto
    then consider (a) bought | (b) "method c' = ''buy''" "isOK res'"
      | (c) i buy tx where "i < k" "t ! i = Wait buy (Inr tx)" "method buy = ''buy''"
      by blast
    then show ?thesis
    proof cases
      case a
      then show ?thesis by simp
    next
      case b
      then obtain tx where "res' = Inr tx" by (cases res') (auto simp: isOK_def)
      then have "(Wait c' res' # t) ! 0 = Wait c' (Inr tx) \<and> method c' = ''buy''"
        using b by simp
      then show ?thesis using Suc by blast
    next
      case c
      then have "(Wait c' res' # t) ! Suc i = Wait buy (Inr tx) \<and> method buy = ''buy''"
        by simp
      moreover have "Suc i < j" using c Suc by simp
      ultimately show ?thesis by blast
    qed
  qed
qed

section \<open>The claims\<close>

text \<open>
  C8. The action's static metadata is fixed: its name is \<^verbatim>\<open>gift_transfer\<close>, its
  description is \<^verbatim>\<open>GIFT_TRANSFER_PROMPT\<close>, its schema is \<^verbatim>\<open>GiftTransferInput\<close>, whose four
  fields \<^verbatim>\<open>amount_eth_in_wei\<close>, \<^verbatim>\<open>memecoin_address\<close>, \<^verbatim>\<open>recipient\<close>, \<^verbatim>\<open>giver\<close> are
  required strings, and its function is \<^verbatim>\<open>gift_transfer\<close>.
\<close>

theorem action_metadata:
  "name GiftTransferAction = ''gift_transfer'' \<and>
   description GiftTransferAction = GIFT_TRANSFER_PROMPT \<and>
   args_schema GiftTransferAction = Some GiftTransferInput \<and>
   map field_name GiftTransferInput =
     [''amount_eth_in_wei'', ''memecoin_address'', ''recipient'', ''giver''] \<and>
   map field_type GiftTransferInput = [''str'', ''str'', ''str'', ''str''] \<and>
   map required GiftTransferInput = [True, True, True, True] \<and>
   func GiftTransferAction = gift_transfer"
  by (simp add: GiftTransferAction_def GiftTransferInput_def)

text \<open>
  C6. The escrow contract is the placeholder \<^verbatim>\<open>"0x..."\<close> in every run, whatever the
  environment and the wallet: it is the \<^verbatim>\<open>recipient\<close> argument of every \<^verbatim>\<open>buy\<close> and the
  contract address of every \<^verbatim>\<open>createGift\<close>, and a run invokes no other method.
\<close>

theorem escrow_is_placeholder:
  assumes "InvokeContract c res \<in> set (snd (gift_transfer E w a m r g))"
  shows "(method c = ''buy'' \<and> map_of (args c) ''recipient'' = Some (PyStr ''0x...''))
       \<or> (method c = ''createGift'' \<and> contract_address c = ''0x...'')"
  using invoke_in_body [of c res E w a m r g] assms
  by (auto simp: snd_gift_transfer buy_invocation_def gift_invocation_def escrow_address_def)

theorem escrow_is_placeholder_witness:
  "InvokeContract buy_ok None
     \<in> set (snd (gift_transfer E_ok w_ok ''1000000000000000000'' ''0xToken'' ''0xBob'' ''0xAlice''))
   \<and> InvokeContract gift_ok None
     \<in> set (snd (gift_transfer E_ok w_ok ''1000000000000000000'' ''0xToken'' ''0xBob'' ''0xAlice''))
   \<and> map_of (args buy_ok) ''recipient'' = Some (PyStr ''0x...'')
   \<and> contract_address gift_ok = ''0x...''"
proof -
  have b: "InvokeContract buy_ok None
     \<in> set (snd (gift_transfer E_ok w_ok ''1000000000000000000'' ''0xToken'' ''0xBob'' ''0xAlice''))"
    and g: "InvokeContract gift_ok None
     \<in> set (snd (gift_transfer E_ok w_ok ''1000000000000000000'' ''0xToken'' ''0xBob'' ''0xAlice''))"
    by (simp_all add: ok_run trace_ok_def)
  have mb: "method buy_ok = ''buy''" and mg: "method gift_ok = ''createGift''"
    by (simp_all add: buy_ok_def gift_ok_def buy_invocation_def gift_invocation_def)
  show ?thesis
    using b g escrow_is_placeholder [OF b] escrow_is_placeholder [OF g] mb mg by simp
qed

text \<open>
  C5. The purchased tokens go to the escrow contract: the \<^verbatim>\<open>recipient\<close> argument of the
  \<^verbatim>\<open>buy\<close> invocation is the escrow address. It is not taken from the giver, the gift's
  recipient or the wallet: it differs from each of them that is not itself the escrow
  address.
\<close>

theorem buy_recipient_is_escrow:
  assumes "InvokeContract c res \<in> set (snd (gift_transfer E w a m r g))" "method c = ''buy''"
  shows "map_of (args c) ''recipient'' = Some (PyStr escrow_address) \<and>
         (g \<noteq> escrow_address \<longrightarrow> map_of (args c) ''recipient'' \<noteq> Some (PyStr g)) \<and>
         (r \<noteq> escrow_address \<longrightarrow> map_of (args c) ''recipient'' \<noteq> Some (PyStr r)) \<and>
         (default_address w \<noteq> Some escrow_address \<longrightarrow>
            map_option PyStr (default_address w) \<noteq> map_of (args c) ''recipient'')"
  using invoke_in_body [of c res E w a m r g] assms
  by (auto simp: snd_gift_transfer buy_invocation_def gift_invocation_def)

theorem buy_recipient_is_escrow_witness:
  "InvokeContract buy_ok None
     \<in> set (snd (gift_transfer E_ok w_ok ''1000000000000000000'' ''0xToken'' ''0xBob'' ''0xAlice''))
   \<and> method buy_ok = ''buy''
   \<and> ''0xAlice'' \<noteq> escrow_address \<and> ''0xBob'' \<noteq> escrow_address
   \<and> default_address w_ok \<noteq> Some escrow_address
   \<and> map_of (args buy_ok) ''recipient'' = Some (PyStr escrow_address)
   \<and> map_of (args buy_ok) ''recipient'' \<noteq> Some (PyStr ''0xAlice'')
   \<and> map_of (args buy_ok) ''recipient'' \<noteq> Some (PyStr ''0xBob'')
   \<and> map_option PyStr (default_address w_ok) \<noteq> map_of (args buy_ok) ''recipient''"
proof -
  have b: "InvokeContract buy_ok None
     \<in> set (snd (gift_transfer E_ok w_ok ''1000000000000000000'' ''0xToken'' ''0xBob'' ''0xAlice''))"
    by (simp add: ok_run trace_ok_def)
  have mb: "method buy_ok = ''buy''"
    by (simp add: buy_ok_def buy_invocation_def)
  have d: "''0xAlice'' \<noteq> escrow_address" "''0xBob'' \<noteq> escrow_address"
    "default_address w_ok \<noteq> Some escrow_address"
    by (simp_all add: escrow_address_def w_ok_def)
  show ?thesis
    using b mb d buy_recipient_is_escrow [OF b mb] by simp
qed

text \<open>
  C2 as stated fails: the arguments of \<^verbatim>\<open>createGift\<close> do not carry the purchased token
  amount. In the run that succeeds the quote is 1000000 tokens, and that number is no
  argument of the call, as an int or as a string.
\<close>

theorem createGift_omits_token_amount:
  "snd (gift_transfer E_ok w_ok ''1000000000000000000'' ''0xToken'' ''0xBob'' ''0xAlice'') ! 4
     = InvokeContract gift_ok None \<and>
   get_buy_quote E_ok ''base-sepolia'' ''0xToken'' ''1000000000000000000'' = Inr 1000000 \<and>
   map snd (args gift_ok) =
     [PyStr ''0xToken'', PyStr ''0xBob'', PyStr ''0xAlice'', PyInt 1000000000,
      PyStr ''1000000000000000000''] \<and>
   PyInt 1000000 \<notin> set (map snd (args gift_ok)) \<and>
   PyStr ''1000000'' \<notin> set (map snd (args gift_ok))"
proof -
  have "get_buy_quote E_ok ''base-sepolia'' ''0xToken'' ''1000000000000000000'' = Inr 1000000"
    by (simp add: E_ok_def)
  moreover have "snd (gift_transfer E_ok w_ok ''1000000000000000000'' ''0xToken'' ''0xBob'' ''0xAlice'') ! 4
     = InvokeContract gift_ok None"
    by (simp add: ok_run trace_ok_def)
  ultimately show ?thesis
    by (simp add: gift_ok_def gift_invocation_def)
qed

text \<open>
  C2, amended. Every \<^verbatim>\<open>createGift\<close> invocation of a run carries exactly five arguments:
  the given memecoin address, the given recipient, the given giver, the USDC value that
  \<^verbatim>\<open>get_current_usdc_price\<close> computed for the quoted token amount, and, as
  \<^verbatim>\<open>initialBuyPrice\<close>, the input string \<^verbatim>\<open>amount_eth_in_wei\<close>. It is sent to the escrow
  address with \<^verbatim>\<open>GIFT_ESCROW_ABI\<close> and no ether.
\<close>

theorem createGift_arguments:
  assumes "InvokeContract c res \<in> set (snd (gift_transfer E w a m r g))"
    "method c = ''createGift''"
  shows "\<exists>q u. get_buy_quote E (network_id w) m a = Inr q \<and>
           fst (get_current_usdc_price E (network_id w) m q) = Inr u \<and>
           args c = [(''token'', PyStr m), (''recipient'', PyStr r), (''giver'', PyStr g),
                     (''redeemableUsdcAmount'', PyInt u), (''initialBuyPrice'', PyStr a)] \<and>
           contract_address c = escrow_address \<and> abi c = GIFT_ESCROW_ABI \<and> amount c = None"
  using invoke_in_body [of c res E w a m r g] assms
  by (auto simp: snd_gift_transfer buy_invocation_def gift_invocation_def)

theorem createGift_arguments_witness:
  "InvokeContract gift_ok None
     \<in> set (snd (gift_transfer E_ok w_ok ''1000000000000000000'' ''0xToken'' ''0xBob'' ''0xAlice''))
   \<and> method gift_ok = ''createGift''
   \<and> (\<exists>q u. get_buy_quote E_ok (network_id w_ok) ''0xToken'' ''1000000000000000000'' = Inr q \<and>
         fst (get_current_usdc_price E_ok (network_id w_ok) ''0xToken'' q) = Inr u \<and>
         args gift_ok =
           [(''token'', PyStr ''0xToken''), (''recipient'', PyStr ''0xBob''),
            (''giver'', PyStr ''0xAlice''), (''redeemableUsdcAmount'', PyInt u),
            (''initialBuyPrice'', PyStr ''1000000000000000000'')] \<and>
         contract_address gift_ok = escrow_address \<and> abi gift_ok = GIFT_ESCROW_ABI \<and>
         amount gift_ok = None)"
proof -
  have g: "InvokeContract gift_ok None
     \<in> set (snd (gift_transfer E_ok w_ok ''1000000000000000000'' ''0xToken'' ''0xBob'' ''0xAlice''))"
    by (simp add: ok_run trace_ok_def)
  have mg: "method gift_ok = ''createGift''"
    by (simp add: gift_ok_def gift_invocation_def)
  show ?thesis
    using g mg createGift_arguments [OF g mg] by simp
qed

text \<open>
  C1 as stated fails: a run that succeeds makes four calls, not three. Between the
  purchase and the deposit, \<^verbatim>\<open>get_current_usdc_price\<close> calls \<^verbatim>\<open>get_sell_quote\<close>.
\<close>

definition is_call :: "event \<Rightarrow> bool" where
  "is_call ev = (case ev of Wait _ _ \<Rightarrow> False | _ \<Rightarrow> True)"

theorem four_calls_counterexample:
  "fst (gift_transfer_body E_ok w_ok ''1000000000000000000'' ''0xToken'' ''0xBob'' ''0xAlice'')
     = Inr (success_message 1000000 ''0xToken'' ''0xAlice'' ''0xBob'' ''1'' ''0.03'' ''1000.0'' tx_ok) \<and>
   filter is_call
     (snd (gift_transfer E_ok w_ok ''1000000000000000000'' ''0xToken'' ''0xBob'' ''0xAlice''))
     = [GetBuyQuote ''base-sepolia'' ''0xToken'' ''1000000000000000000'' (Inr 1000000),
        InvokeContract buy_ok None,
        GetSellQuote ''base-sepolia'' ''0xToken'' ''1000000'' (Inr 500000000000000000),
        InvokeContract gift_ok None] \<and>
   length (filter is_call
     (snd (gift_transfer E_ok w_ok ''1000000000000000000'' ''0xToken'' ''0xBob'' ''0xAlice''))) = 4"
  by (simp add: ok_run ok_body trace_ok_def is_call_def)

text \<open>
  C1, amended. A run that succeeds makes exactly four calls in this order: the buy quote,
  the \<^verbatim>\<open>buy\<close> invocation (and the wait for it), the sell quote, the \<^verbatim>\<open>createGift\<close>
  invocation (and the wait for it). In every run, successful or not, a \<^verbatim>\<open>createGift\<close>
  invocation comes after a wait for a \<^verbatim>\<open>buy\<close> has returned.
\<close>

theorem call_sequence:
  "(fst (gift_transfer_body E w a m r g) = Inr s \<longrightarrow>
      (\<exists>q buy tx1 sq gift tx2.
         method buy = ''buy'' \<and> method gift = ''createGift'' \<and>
         gift_transfer E w a m r g =
           (Returned s,
            [GetBuyQuote (network_id w) m a (Inr q),
             InvokeContract buy None,
             Wait buy (Inr tx1),
             GetSellQuote (network_id w) m (str_int (int q)) (Inr sq),
             InvokeContract gift None,
             Wait gift (Inr tx2)]))) \<and>
   (j < length (snd (gift_transfer E w a m r g)) \<and>
    snd (gift_transfer E w a m r g) ! j = InvokeContract c res \<and> method c = ''createGift'' \<longrightarrow>
      (\<exists>i<j. \<exists>buy tx. snd (gift_transfer E w a m r g) ! i = Wait buy (Inr tx) \<and>
                       method buy = ''buy''))"
proof (intro conjI impI)
  assume ok: "fst (gift_transfer_body E w a m r g) = Inr s"
  then have b: "gift_transfer_body E w a m r g = (Inr s, snd (gift_transfer_body E w a m r g))"
    by (cases "gift_transfer_body E w a m r g") simp
  from body_success [OF b] obtain q refund mo tot tx1 sq u tx2 where
    t: "snd (gift_transfer_body E w a m r g) =
          [GetBuyQuote (network_id w) m a (Inr q),
           InvokeContract (buy_invocation m refund r mo tot) None,
           Wait (buy_invocation m refund r mo tot) (Inr tx1),
           GetSellQuote (network_id w) m (str_int (int q)) (Inr sq),
           InvokeContract (gift_invocation m r g u a) None,
           Wait (gift_invocation m r g u a) (Inr tx2)]"
    by blast
  have "gift_transfer E w a m r g = (Returned s, snd (gift_transfer_body E w a m r g))"
    using ok by (cases "gift_transfer_body E w a m r g") (simp add: gift_transfer_def)
  moreover have "method (buy_invocation m refund r mo tot) = ''buy''"
    "method (gift_invocation m r g u a) = ''createGift''"
    by (simp_all add: buy_invocation_def gift_invocation_def)
  ultimately show "\<exists>q buy tx1 sq gift tx2.
         method buy = ''buy'' \<and> method gift = ''createGift'' \<and>
         gift_transfer E w a m r g =
           (Returned s,
            [GetBuyQuote (network_id w) m a (Inr q),
             InvokeContract buy None,
             Wait buy (Inr tx1),
             GetSellQuote (network_id w) m (str_int (int q)) (Inr sq),
             InvokeContract gift None,
             Wait gift (Inr tx2)])"
    unfolding t by blast
next
  assume h: "j < length (snd (gift_transfer E w a m r g)) \<and>
    snd (gift_transfer E w a m r g) ! j = InvokeContract c res \<and> method c = ''createGift''"
  show "\<exists>i<j. \<exists>buy tx. snd (gift_transfer E w a m r g) ! i = Wait buy (Inr tx) \<and>
                       method buy = ''buy''"
    using dap_nth [OF dap_body, of j E w a m r g c res] h
    by (simp add: snd_gift_transfer)
qed

theorem call_sequence_witness:
  "fst (gift_transfer_body E_ok w_ok ''1000000000000000000'' ''0xToken'' ''0xBob'' ''0xAlice'')
     = Inr (success_message 1000000 ''0xToken'' ''0xAlice'' ''0xBob'' ''1'' ''0.03'' ''1000.0'' tx_ok) \<and>
   (\<exists>q buy tx1 sq gift tx2.
      method buy = ''buy'' \<and> method gift = ''createGift'' \<and>
      gift_transfer E_ok w_ok ''1000000000000000000'' ''0xToken'' ''0xBob'' ''0xAlice'' =
        (Returned (success_message 1000000 ''0xToken'' ''0xAlice'' ''0xBob'' ''1'' ''0.03'' ''1000.0'' tx_ok),
         [GetBuyQuote (network_id w_ok) ''0xToken'' ''1000000000000000000'' (Inr q),
          InvokeContract buy None,
          Wait buy (Inr tx1),
          GetSellQuote (network_id w_ok) ''0xToken'' (str_int (int q)) (Inr sq),
          InvokeContract gift None,
          Wait gift (Inr tx2)])) \<and>
   (4::nat) < length (snd (gift_transfer E_ok w_ok ''1000000000000000000'' ''0xToken'' ''0xBob'' ''0xAlice'')) \<and>
   snd (gift_transfer E_ok w_ok ''1000000000000000000'' ''0xToken'' ''0xBob'' ''0xAlice'') ! 4
     = InvokeContract gift_ok None \<and>
   method gift_ok = ''createGift'' \<and>
   (\<exists>i<4. \<exists>buy tx.
      snd (gift_transfer E_ok w_ok ''1000000000000000000'' ''0xToken'' ''0xBob'' ''0xAlice'') ! i
        = Wait buy (Inr tx) \<and> method buy = ''buy'')"
proof -
  have ok: "fst (gift_transfer_body E_ok w_ok ''1000000000000000000'' ''0xToken'' ''0xBob'' ''0xAlice'')
     = Inr (success_message 1000000 ''0xToken'' ''0xAlice'' ''0xBob'' ''1'' ''0.03'' ''1000.0'' tx_ok)"
    by (simp add: ok_body)
  have j: "(4::nat) < length (snd (gift_transfer E_ok w_ok ''1000000000000000000'' ''0xToken'' ''0xBob'' ''0xAlice''))"
    "snd (gift_transfer E_ok w_ok ''1000000000000000000'' ''0xToken'' ''0xBob'' ''0xAlice'') ! 4
       = InvokeContract gift_ok None"
    "method gift_ok = ''createGift''"
    by (simp_all add: ok_run trace_ok_def gift_ok_def gift_invocation_def)
  show ?thesis
    using ok j
      call_sequence [of E_ok w_ok "''1000000000000000000''" "''0xToken''" "''0xBob''" "''0xAlice''"
        "success_message 1000000 ''0xToken'' ''0xAlice'' ''0xBob'' ''1'' ''0.03'' ''1000.0'' tx_ok"
        4 gift_ok None]
    by blast
qed

text \<open>
  Two runs that fail: in \<open>E_fail\<close> the wallet refuses every transaction with an
  \<^verbatim>\<open>Exception\<close>; in \<open>E_interrupt\<close> the user interrupts the wait for the purchase, which
  raises \<^verbatim>\<open>KeyboardInterrupt\<close> (whose \<^verbatim>\<open>str\<close> is empty).
\<close>

definition E_fail :: env where
  "E_fail = E_ok\<lparr>invoke_contract := (\<lambda>_. Some (Exception ''insufficient funds''))\<rparr>"

definition E_interrupt :: env where
  "E_interrupt = E_ok\<lparr>wait := (\<lambda>_. Inl (BaseException []))\<rparr>"

lemma fail_body:
  "gift_transfer_body E_fail w_ok ''1000000000000000000'' ''0xToken'' ''0xBob'' ''0xAlice'' =
     (Inl (Exception ''insufficient funds''),
      [GetBuyQuote ''base-sepolia'' ''0xToken'' ''1000000000000000000'' (Inr 1000000),
       InvokeContract buy_ok (Some (Exception ''insufficient funds''))])"
proof -
  have sel: "get_buy_quote E_fail = (\<lambda>_ _ _. Inr 1000000)"
    "invoke_contract E_fail = (\<lambda>_. Some (Exception ''insufficient funds''))"
    "int_max_str_digits E_fail = 4300"
    "network_id w_ok = ''base-sepolia''" "default_address w_ok = Some ''0xGiver''"
    by (simp_all add: E_fail_def E_ok_def w_ok_def)
  have s: "str_int 1030000000000000000 = ''1030000000000000000''"
    by (simp add: str_simps)
  show ?thesis
    unfolding gift_transfer_body_def sel
    by (simp add: sel run_simps ok_float_amount ok_fee ok_int_amount address_id_of_def
        ok_float_quote ok_min_order s buy_ok_def)
qed

lemma interrupt_body:
  "gift_transfer_body E_interrupt w_ok ''1000000000000000000'' ''0xToken'' ''0xBob'' ''0xAlice'' =
     (Inl (BaseException []),
      [GetBuyQuote ''base-sepolia'' ''0xToken'' ''1000000000000000000'' (Inr 1000000),
       InvokeContract buy_ok None,
       Wait buy_ok (Inl (BaseException []))])"
proof -
  have sel: "get_buy_quote E_interrupt = (\<lambda>_ _ _. Inr 1000000)"
    "invoke_contract E_interrupt = (\<lambda>_. None)"
    "wait E_interrupt = (\<lambda>_. Inl (BaseException []))"
    "int_max_str_digits E_interrupt = 4300"
    "network_id w_ok = ''base-sepolia''" "default_address w_ok = Some ''0xGiver''"
    by (simp_all add: E_interrupt_def E_ok_def w_ok_def)
  have s: "str_int 1030000000000000000 = ''1030000000000000000''"
    by (simp add: str_simps)
  show ?thesis
    unfolding gift_transfer_body_def sel
    by (simp add: sel run_simps ok_float_amount ok_fee ok_int_amount address_id_of_def
        ok_float_quote ok_min_order s buy_ok_def)
qed

text \<open>
  C3 as stated fails: an exception that is not an \<^verbatim>\<open>Exception\<close> leaves the function.
  When the wait for the purchase raises \<^verbatim>\<open>KeyboardInterrupt\<close>, \<^verbatim>\<open>gift_transfer\<close> raises
  it and returns no string.
\<close>

theorem interrupt_counterexample:
  "wait E_interrupt buy_ok = Inl (BaseException []) \<and>
   gift_transfer E_interrupt w_ok ''1000000000000000000'' ''0xToken'' ''0xBob'' ''0xAlice'' =
     (Raised (BaseException []),
      [GetBuyQuote ''base-sepolia'' ''0xToken'' ''1000000000000000000'' (Inr 1000000),
       InvokeContract buy_ok None,
       Wait buy_ok (Inl (BaseException []))])"
  by (simp add: gift_transfer_def interrupt_body) (simp add: E_interrupt_def)

text \<open>
  C3, amended. \<^verbatim>\<open>gift_transfer\<close> never raises an \<^verbatim>\<open>Exception\<close>: what it raises is a
  \<^verbatim>\<open>BaseException\<close> outside \<^verbatim>\<open>Exception\<close> that a step raised. Whenever a step fails with
  an \<^verbatim>\<open>Exception\<close>, it returns \<^verbatim>\<open>"Error in gift transfer: "\<close> followed by the message.
  No step follows a failure: a collaborator call that raised is the last event of the run
  and its exception is the one the body ends with, and a contract is invoked only if the
  amount string parsed as a float and as an int.
\<close>

theorem gift_transfer_catches:
  "(fst (gift_transfer E w a m r g) = Raised e \<longrightarrow>
      (\<exists>msg. e = BaseException msg) \<and> fst (gift_transfer_body E w a m r g) = Inl e) \<and>
   (fst (gift_transfer_body E w a m r g) = Inl (Exception msg) \<longrightarrow>
      fst (gift_transfer E w a m r g) = Returned (''Error in gift transfer: '' @ msg)) \<and>
   (i < length (snd (gift_transfer E w a m r g)) \<and>
    raised (snd (gift_transfer E w a m r g) ! i) = Some e' \<longrightarrow>
      Suc i = length (snd (gift_transfer E w a m r g)) \<and>
      fst (gift_transfer_body E w a m r g) = Inl e') \<and>
   (InvokeContract c res \<in> set (snd (gift_transfer E w a m r g)) \<longrightarrow>
      (\<exists>x n. py_float_of_str a = Inr x \<and> py_int_of_str (int_max_str_digits E) a = Inr n))"
proof -
  have 1: "fst (gift_transfer E w a m r g) = Raised e \<longrightarrow>
      (\<exists>msg. e = BaseException msg) \<and> fst (gift_transfer_body E w a m r g) = Inl e"
    by (cases "gift_transfer_body E w a m r g")
       (auto simp: gift_transfer_def split: sum.splits exn.splits)
  have 2: "fst (gift_transfer_body E w a m r g) = Inl (Exception msg) \<longrightarrow>
      fst (gift_transfer E w a m r g) = Returned (''Error in gift transfer: '' @ msg)"
    by (cases "gift_transfer_body E w a m r g") (simp add: gift_transfer_def)
  have 3: "i < length (snd (gift_transfer E w a m r g)) \<and>
    raised (snd (gift_transfer E w a m r g) ! i) = Some e' \<longrightarrow>
      Suc i = length (snd (gift_transfer E w a m r g)) \<and>
      fst (gift_transfer_body E w a m r g) = Inl e'"
    using run_wf_body [of E w a m r g] by (simp add: run_wf_def snd_gift_transfer)
  have 4: "InvokeContract c res \<in> set (snd (gift_transfer E w a m r g)) \<longrightarrow>
      (\<exists>x n. py_float_of_str a = Inr x \<and> py_int_of_str (int_max_str_digits E) a = Inr n)"
    using invoke_in_body [of c res E w a m r g]
    by (simp only: snd_gift_transfer) blast
  show ?thesis using 1 2 3 4 by blast
qed

theorem gift_transfer_catches_witness:
  "fst (gift_transfer E_interrupt w_ok ''1000000000000000000'' ''0xToken'' ''0xBob'' ''0xAlice'')
     = Raised (BaseException []) \<and>
   fst (gift_transfer_body E_interrupt w_ok ''1000000000000000000'' ''0xToken'' ''0xBob'' ''0xAlice'')
     = Inl (BaseException []) \<and>
   fst (gift_transfer_body E_fail w_ok ''1000000000000000000'' ''0xToken'' ''0xBob'' ''0xAlice'')
     = Inl (Exception ''insufficient funds'') \<and>
   fst (gift_transfer E_fail w_ok ''1000000000000000000'' ''0xToken'' ''0xBob'' ''0xAlice'')
     = Returned ''Error in gift transfer: insufficient funds'' \<and>
   (1::nat) < length (snd (gift_transfer E_fail w_ok ''1000000000000000000'' ''0xToken'' ''0xBob'' ''0xAlice'')) \<and>
   raised (snd (gift_transfer E_fail w_ok ''1000000000000000000'' ''0xToken'' ''0xBob'' ''0xAlice'') ! 1)
     = Some (Exception ''insufficient funds'') \<and>
   Suc 1 = length (snd (gift_transfer E_fail w_ok ''1000000000000000000'' ''0xToken'' ''0xBob'' ''0xAlice'')) \<and>
   InvokeContract buy_ok (Some (Exception ''insufficient funds''))
     \<in> set (snd (gift_transfer E_fail w_ok ''1000000000000000000'' ''0xToken'' ''0xBob'' ''0xAlice'')) \<and>
   (\<exists>x n. py_float_of_str ''1000000000000000000'' = Inr x \<and>
          py_int_of_str (int_max_str_digits E_fail) ''1000000000000000000'' = Inr n)"
proof -
  have r: "fst (gift_transfer E_interrupt w_ok ''1000000000000000000'' ''0xToken'' ''0xBob'' ''0xAlice'')
     = Raised (BaseException [])"
    by (simp add: gift_transfer_def interrupt_body)
  have f: "fst (gift_transfer_body E_fail w_ok ''1000000000000000000'' ''0xToken'' ''0xBob'' ''0xAlice'')
     = Inl (Exception ''insufficient funds'')"
    by (simp add: fail_body)
  have t: "snd (gift_transfer E_fail w_ok ''1000000000000000000'' ''0xToken'' ''0xBob'' ''0xAlice'') =
      [GetBuyQuote ''base-sepolia'' ''0xToken'' ''1000000000000000000'' (Inr 1000000),
       InvokeContract buy_ok (Some (Exception ''insufficient funds''))]"
    by (simp add: snd_gift_transfer fail_body)
  have i: "(1::nat) < length (snd (gift_transfer E_fail w_ok ''1000000000000000000'' ''0xToken'' ''0xBob'' ''0xAlice''))"
    "raised (snd (gift_transfer E_fail w_ok ''1000000000000000000'' ''0xToken'' ''0xBob'' ''0xAlice'') ! 1)
       = Some (Exception ''insufficient funds'')"
    "InvokeContract buy_ok (Some (Exception ''insufficient funds''))
       \<in> set (snd (gift_transfer E_fail w_ok ''1000000000000000000'' ''0xToken'' ''0xBob'' ''0xAlice''))"
    by (simp_all add: t raised_def)
  note A = gift_transfer_catches [of E_interrupt w_ok "''1000000000000000000''" "''0xToken''"
        "''0xBob''" "''0xAlice''" "BaseException []"]
  note B = gift_transfer_catches [of E_fail w_ok "''1000000000000000000''" "''0xToken''"
        "''0xBob''" "''0xAlice''" _ "''insufficient funds''" 1 "Exception ''insufficient funds''"
        buy_ok "Some (Exception ''insufficient funds'')"]
  note c1 = A [THEN conjunct1, THEN mp, OF r]
  note c2 = B [THEN conjunct2, THEN conjunct1, THEN mp, OF f]
  note c3 = B [THEN conjunct2, THEN conjunct2, THEN conjunct1, THEN mp, OF conjI [OF i(1) i(2)]]
  note c4 = B [THEN conjunct2, THEN conjunct2, THEN conjunct2, THEN mp, OF i(3)]
  have c2': "fst (gift_transfer E_fail w_ok ''1000000000000000000'' ''0xToken'' ''0xBob'' ''0xAlice'')
     = Returned ''Error in gift transfer: insufficient funds''"
    using c2 by simp
  show ?thesis
    by (intro conjI r f i c4 c1 [THEN conjunct2] c2' c3 [THEN conjunct1])
qed

section \<open>Facts about the arithmetic of the action\<close>

lemma round_double_zero: "round_double 0 = Fin 0"
  by (simp add: round_double_def)

lemma round_double_minus:
  assumes "0 < a" "round_double a = Fin y"
  shows "round_double (- a) = Fin (- y)"
  using assms by (auto simp: round_double_def Let_def split: if_splits)

lemma trunc_nonneg: "0 \<le> x \<Longrightarrow> 0 \<le> trunc x"
  by (simp add: trunc_def)

lemma trunc_le: "0 \<le> x \<Longrightarrow> of_int (trunc x) \<le> x"
  by (simp add: trunc_def)

lemma py_float_of_int_Fin: "py_float_of_int k = Inr d \<Longrightarrow> \<exists>y. d = Fin y \<and> round_double (of_int k) = Fin y"
  by (cases "round_double (of_int k)") (auto simp: py_float_of_int_def)

lemma fmul_Fin: "fmul (Fin a) (Fin b) = round_double (a * b)"
  by (simp add: fmul_def)

lemma py_int_of_float_Inr: "py_int_of_float d = Inr k \<Longrightarrow> \<exists>y. d = Fin y \<and> k = trunc y"
  by (auto simp: py_int_of_float_def split: double.splits)

lemma fmul_not_Fin: "fmul x (Fin b) = Fin z \<Longrightarrow> \<exists>y. x = Fin y"
  by (cases x) (auto simp: fmul_def split: if_splits)

text \<open>A string that \<^verbatim>\<open>int\<close> accepts is one that \<^verbatim>\<open>float\<close> accepts, with the rounded value.\<close>

lemma digitpart_not_word:
  assumes "digitpart r = Some (ds, rest)"
  shows "\<not> is_inf_word r \<and> \<not> is_nan_word r"
proof (cases r)
  case Nil
  then show ?thesis using assms by (simp add: digitpart_def)
next
  case (Cons c cs)
  then have d: "is_digit c" using assms by (simp add: digitpart_def split: if_splits)
  then have "c \<noteq> CHR ''i''" "c \<noteq> CHR ''I''" "c \<noteq> CHR ''n''" "c \<noteq> CHR ''N''"
    by (auto simp: is_digit_def)
  then show ?thesis
    unfolding Cons is_inf_word_def is_nan_word_def word_ci_def by auto
qed

lemma float_of_int_literal:
  assumes "py_int_of_str d s = Inr n"
  shows "py_float_of_str s = Inr (round_double (of_int n))"
proof -
  obtain neg r where ts: "take_sign (strip s) = (neg, r)" by (cases "take_sign (strip s)")
  from assms ts obtain ds where dp: "digitpart r = Some (ds, [])"
    and n: "n = (if neg then - int (digits_value ds) else int (digits_value ds))"
    by (auto simp: py_int_of_str_def split: option.splits prod.splits if_splits)
  have w: "\<not> is_inf_word r" "\<not> is_nan_word r"
    using digitpart_not_word [OF dp] by simp_all
  have pn: "parse_number r = Some (of_nat (digits_value ds))"
    by (simp add: parse_number_def dp decimal_value_def)
  show ?thesis
    by (simp add: py_float_of_str_def ts w pn n)
qed

lemma fee_nonneg:
  assumes "0 \<le> n" "py_int_of_float (fmul (round_double (of_int n)) lit_0_03) = Inr fee"
  shows "0 \<le> fee"
proof -
  from py_int_of_float_Inr [OF assms(2)] obtain z where
    z: "fmul (round_double (of_int n)) lit_0_03 = Fin z" and fee: "fee = trunc z" by blast
  from z obtain y where y: "round_double (of_int n) = Fin y"
    unfolding lit_0_03_val using fmul_not_Fin by blast
  have "0 \<le> y" using round_double_nonneg [OF _ y] assms(1) by simp
  then have "0 \<le> y * (1080863910568919 / 36028797018963968)" by simp
  moreover have "round_double (y * (1080863910568919 / 36028797018963968)) = Fin z"
    using z unfolding y lit_0_03_val fmul_Fin .
  ultimately have "0 \<le> z" by (rule round_double_nonneg)
  then show ?thesis unfolding fee by (rule trunc_nonneg)
qed

lemma min_order_le:
  assumes "py_float_of_int (int q) = Inr qf" "py_int_of_float (fmul qf lit_0_99) = Inr mo"
  shows "0 \<le> mo \<and> mo \<le> int q"
proof -
  define c :: rat where "c = 4458563631096791 / 4503599627370496"
  have c: "0 < c" "c < 1" by (simp_all add: c_def)
  from py_float_of_int_Fin [OF assms(1)] obtain y1 where
    qf: "qf = Fin y1" and y1: "round_double (of_int (int q)) = Fin y1" by blast
  from py_int_of_float_Inr [OF assms(2)] obtain y2 where
    y2: "round_double (y1 * c) = Fin y2" and mo: "mo = trunc y2"
    unfolding qf lit_0_99_val fmul_Fin c_def by blast
  have y1_nonneg: "0 \<le> y1" using round_double_nonneg [OF _ y1] by simp
  then have x_nonneg: "0 \<le> y1 * c" using c by simp
  have y2_nonneg: "0 \<le> y2" using round_double_nonneg [OF x_nonneg y2] .
  have mo_le: "of_int mo \<le> y2" unfolding mo using y2_nonneg by (rule trunc_le)
  have "y2 \<le> of_nat q"
  proof (cases "q = 0")
    case True
    then have "y1 = 0" using y1 by (simp add: round_double_zero)
    then show ?thesis using y2 by (simp add: round_double_zero)
  next
    case False
    then have q1: "(1::rat) \<le> of_nat q" by simp
    have tiny: "(1::rat) / 2 ^ 1075 \<le> 1 / 2 ^ 53"
      by (intro divide_left_mono power_increasing) simp_all
    have "y1 \<le> of_nat q + of_nat q / 2 ^ 53 + 1 / 2 ^ 1075"
      using round_double_upper [OF _ y1] False by simp
    then have y1_le: "y1 \<le> of_nat q * (1 + 2 / 2 ^ 53)"
      using tiny q1 by (simp add: field_simps)
    show ?thesis
    proof (cases "y1 * c = 0")
      case True
      then have "y2 = 0" using y2 by (simp only: round_double_zero double.inject)
      then show ?thesis by simp
    next
      case False
      with x_nonneg have "0 < y1 * c" by (simp only: less_le) simp
      from round_double_upper [OF this y2]
      have "y2 \<le> y1 * c * (1 + 1 / 2 ^ 53) + 1 / 2 ^ 1075" by (simp add: field_simps)
      also have "y1 * c * (1 + 1 / 2 ^ 53) \<le> (of_nat q * (1 + 2 / 2 ^ 53)) * c * (1 + 1 / 2 ^ 53)"
        using y1_le c by (intro mult_right_mono) simp_all
      finally have "y2 \<le> of_nat q * ((1 + 2 / 2 ^ 53) * c * (1 + 1 / 2 ^ 53)) + 1 / 2 ^ 53"
        using tiny by (simp add: mult.assoc)
      also have "\<dots> \<le> of_nat q * ((1 + 2 / 2 ^ 53) * c * (1 + 1 / 2 ^ 53)) + of_nat q * (1 / 2 ^ 53)"
        using q1 by simp
      also have "\<dots> = of_nat q * ((1 + 2 / 2 ^ 53) * c * (1 + 1 / 2 ^ 53) + 1 / 2 ^ 53)"
        by (simp add: distrib_left)
      also have "\<dots> \<le> of_nat q * 1"
      proof (rule mult_left_mono)
        show "(1 + 2 / 2 ^ 53) * c * (1 + 1 / 2 ^ 53) + 1 / 2 ^ 53 \<le> (1::rat)"
          by (simp add: c_def)
        show "(0::rat) \<le> of_nat q" by simp
      qed
      finally show ?thesis by simp
    qed
  qed
  then have "(of_int mo :: rat) \<le> of_int (int q)" using mo_le by simp
  then have "mo \<le> int q" by (simp only: of_int_le_iff)
  moreover have "0 \<le> mo" unfolding mo using y2_nonneg by (rule trunc_nonneg)
  ultimately show ?thesis by simp
qed

text \<open>
  C4. The USDC pricing is a stub: \<^verbatim>\<open>get_current_usdc_price\<close> makes one call, the sell
  quote for the token amount, and returns \<^verbatim>\<open>int((sell_quote / 1e18) * 2000 * 1e6)\<close> in
  float arithmetic, with the constant price 2000, for every network and token. It fails
  where the quote fails or is too large for a float.
\<close>

theorem usdc_price_is_stub:
  "(get_sell_quote E n m (str_int (int t)) = Inl e \<longrightarrow>
      get_current_usdc_price E n m t = (Inl e, [GetSellQuote n m (str_int (int t)) (Inl e)])) \<and>
   (get_sell_quote E n m (str_int (int t)) = Inr sq \<and> py_float_of_int (int sq) = Inl e \<longrightarrow>
      get_current_usdc_price E n m t = (Inl e, [GetSellQuote n m (str_int (int t)) (Inr sq)])) \<and>
   (get_sell_quote E n m (str_int (int t)) = Inr sq \<and> py_float_of_int (int sq) = Inr (Fin y) \<longrightarrow>
      get_current_usdc_price E n m t =
        (py_int_of_float (fmul (fmul (round_double (y / 10 ^ 18)) (Fin 2000)) (Fin (10 ^ 6))),
         [GetSellQuote n m (str_int (int t)) (Inr sq)]))"
  by (simp add: get_current_usdc_price_def run_simps pure_run_def py_truediv_def
      lit_1e18_val lit_1e6_val ok_float_price)

theorem usdc_price_is_stub_witness:
  "get_sell_quote E_ok ''base-sepolia'' ''0xToken'' (str_int (int 1000000)) = Inr 500000000000000000 \<and>
   py_float_of_int (int 500000000000000000) = Inr (Fin 500000000000000000) \<and>
   get_current_usdc_price E_ok ''base-sepolia'' ''0xToken'' 1000000 =
     (py_int_of_float (fmul (fmul (round_double (500000000000000000 / 10 ^ 18)) (Fin 2000)) (Fin (10 ^ 6))),
      [GetSellQuote ''base-sepolia'' ''0xToken'' (str_int (int 1000000)) (Inr 500000000000000000)]) \<and>
   py_int_of_float (fmul (fmul (round_double (500000000000000000 / 10 ^ 18)) (Fin 2000)) (Fin (10 ^ 6)))
     = Inr 1000000000"
proof -
  have q: "get_sell_quote E_ok ''base-sepolia'' ''0xToken'' (str_int (int 1000000)) = Inr 500000000000000000"
    by (simp add: E_ok_def)
  have f: "py_float_of_int (int 500000000000000000) = Inr (Fin 500000000000000000)"
    using ok_float_sell by simp
  note p = usdc_price_is_stub [of E_ok "''base-sepolia''" "''0xToken''" 1000000 _
      500000000000000000 500000000000000000,
      THEN conjunct2, THEN conjunct2, THEN mp, OF conjI [OF q f]]
  have v: "py_int_of_float (fmul (fmul (round_double (500000000000000000 / 10 ^ 18)) (Fin 2000)) (Fin (10 ^ 6)))
     = Inr 1000000000"
    using p ok_price by (simp add: str_simps)
  show ?thesis
    by (intro conjI q f p v)
qed

text \<open>A run with a negative amount: the quote, as before, is a million tokens.\<close>

lemma neg_float_amount: "py_float_of_str ''-100'' = Inr (Fin (- 100))"
proof -
  have "round_double 100 = Fin 100"
    by (subst round_double_normal [where e = 6]) (simp_all add: round_simps)
  then have "round_double (- 100) = Fin (- 100)"
    using round_double_minus [of 100 100] by simp
  then show ?thesis
    by (simp add: py_float_of_str_def parse_simps)
qed

lemma neg_int_amount: "py_int_of_str 4300 ''-100'' = Inr (- 100)"
  by (simp add: py_int_of_str_def parse_simps)

lemma neg_fee: "py_int_of_float (fmul (Fin (- 100)) lit_0_03) = Inr (- 3)"
proof -
  have "round_double (100 * (1080863910568919 / 36028797018963968)) = Fin 3"
    by (subst round_double_normal [where e = 1]) (simp_all add: round_simps)
  then have "round_double (- (100 * (1080863910568919 / 36028797018963968))) = Fin (- 3)"
    by (intro round_double_minus) simp_all
  then show ?thesis
    by (simp add: fmul_def lit_0_03_val py_int_of_float_def trunc_def)
qed

definition buy_neg :: invocation where
  "buy_neg = buy_invocation ''0xToken'' ''0xGiver'' ''0xBob'' 990000 ''-103''"

lemma neg_trace:
  "take 2 (snd (gift_transfer_body E_ok w_ok ''-100'' ''0xToken'' ''0xBob'' ''0xAlice'')) =
     [GetBuyQuote ''base-sepolia'' ''0xToken'' ''-100'' (Inr 1000000),
      InvokeContract buy_neg None]"
proof -
  have sel: "get_buy_quote E_ok = (\<lambda>_ _ _. Inr 1000000)" "invoke_contract E_ok = (\<lambda>_. None)"
    "int_max_str_digits E_ok = 4300"
    "network_id w_ok = ''base-sepolia''" "default_address w_ok = Some ''0xGiver''"
    by (simp_all add: E_ok_def w_ok_def)
  have s: "str_int (- 103) = ''-103''"
    by (simp add: str_simps)
  show ?thesis
    unfolding gift_transfer_body_def sel
    by (simp add: sel run_simps neg_float_amount neg_fee neg_int_amount address_id_of_def
        ok_float_quote ok_min_order s buy_neg_def)
qed

text \<open>
  C9 as stated fails for a negative amount: with \<^verbatim>\<open>amount_eth_in_wei = "-100"\<close> the fee is
  \<^verbatim>\<open>int(-100.0 * 0.03) = -3\<close> and the value attached to the purchase is \<^verbatim>\<open>"-103"\<close>, less than
  the input amount.
\<close>

theorem negative_amount_counterexample:
  "py_int_of_str (int_max_str_digits E_ok) ''-100'' = Inr (- 100) \<and>
   py_float_of_str ''-100'' = Inr (Fin (- 100)) \<and>
   py_int_of_float (fmul (Fin (- 100)) lit_0_03) = Inr (- 3) \<and>
   snd (gift_transfer E_ok w_ok ''-100'' ''0xToken'' ''0xBob'' ''0xAlice'') ! 1
     = InvokeContract buy_neg None \<and>
   method buy_neg = ''buy'' \<and>
   amount buy_neg = Some (str_int (- 103)) \<and>
   (- 103 :: int) < - 100"
proof -
  have "snd (gift_transfer E_ok w_ok ''-100'' ''0xToken'' ''0xBob'' ''0xAlice'') ! 1
     = take 2 (snd (gift_transfer_body E_ok w_ok ''-100'' ''0xToken'' ''0xBob'' ''0xAlice'')) ! 1"
    by (simp add: snd_gift_transfer)
  then have "snd (gift_transfer E_ok w_ok ''-100'' ''0xToken'' ''0xBob'' ''0xAlice'') ! 1
     = InvokeContract buy_neg None"
    by (simp only: neg_trace) simp
  moreover have "int_max_str_digits E_ok = 4300" by (simp add: E_ok_def)
  moreover have "method buy_neg = ''buy''" "amount buy_neg = Some (str_int (- 103))"
    by (simp_all add: buy_neg_def buy_invocation_def str_simps)
  ultimately show ?thesis
    by (simp add: neg_int_amount neg_float_amount neg_fee)
qed

lemma big_float_amount: "py_float_of_str ''1000000000000000050'' = Inr (Fin 1000000000000000000)"
  unfolding py_float_of_str_def
  apply (simp add: parse_simps)
  by (subst round_double_normal [where e = 59]) (simp_all add: round_simps)

text \<open>
  C9, amended. The purchase is invoked only when the amount string parses as a float and
  as an int. The platform fee is then \<^verbatim>\<open>int(float(amount_eth_in_wei) * 0.03)\<close> in binary64
  arithmetic, where \<^verbatim>\<open>0.03\<close> is the double \<open>1080863910568919 / 2^55\<close>, and the value
  attached to the purchase is the string of the integer amount plus the fee, in wei. For
  an amount that is not negative the fee is not negative, so the attached value is not
  less than the amount. Above \<open>2^53\<close> the fee can differ from \<open>\<lfloor>3 * amount / 100\<rfloor>\<close>: it
  does for \<open>10^18 + 50\<close> wei.
\<close>

theorem platform_fee:
  "(InvokeContract c res \<in> set (snd (gift_transfer E w a m r g)) \<and> method c = ''buy'' \<longrightarrow>
      (\<exists>x fee n.
         py_float_of_str a = Inr x \<and>
         py_int_of_float (fmul x lit_0_03) = Inr fee \<and>
         py_int_of_str (int_max_str_digits E) a = Inr n \<and>
         amount c = Some (str_int (n + fee)) \<and> asset_id c = Some ''wei'' \<and>
         (0 \<le> n \<longrightarrow> 0 \<le> fee \<and> n \<le> n + fee))) \<and>
   lit_0_03 = Fin (1080863910568919 / 2 ^ 55) \<and>
   (2 :: int) ^ 53 < 1000000000000000050 \<and>
   py_float_of_str ''1000000000000000050'' = Inr (Fin 1000000000000000000) \<and>
   py_int_of_float (fmul (Fin 1000000000000000000) lit_0_03) = Inr 30000000000000000 \<and>
   (3 * 1000000000000000050) div 100 = (30000000000000001 :: int)"
proof -
  have main: "InvokeContract c res \<in> set (snd (gift_transfer E w a m r g)) \<and> method c = ''buy'' \<longrightarrow>
      (\<exists>x fee n.
         py_float_of_str a = Inr x \<and>
         py_int_of_float (fmul x lit_0_03) = Inr fee \<and>
         py_int_of_str (int_max_str_digits E) a = Inr n \<and>
         amount c = Some (str_int (n + fee)) \<and> asset_id c = Some ''wei'' \<and>
         (0 \<le> n \<longrightarrow> 0 \<le> fee \<and> n \<le> n + fee))"
  proof (intro impI, elim conjE)
    assume in_t: "InvokeContract c res \<in> set (snd (gift_transfer E w a m r g))"
      and mc: "method c = ''buy''"
    from invoke_in_body [of c res E w a m r g] in_t mc
    obtain x fee n refund mo where
      x: "py_float_of_str a = Inr x" and fee: "py_int_of_float (fmul x lit_0_03) = Inr fee"
      and n: "py_int_of_str (int_max_str_digits E) a = Inr n"
      and c: "c = buy_invocation m refund r mo (str_int (n + fee))"
      by (auto simp: snd_gift_transfer gift_invocation_def)
    have xr: "x = round_double (of_int n)"
      using float_of_int_literal [OF n] x by simp
    have "0 \<le> n \<longrightarrow> 0 \<le> fee"
      using fee_nonneg [of n fee] fee unfolding xr by simp
    then have "0 \<le> n \<longrightarrow> 0 \<le> fee \<and> n \<le> n + fee" by simp
    moreover have "amount c = Some (str_int (n + fee))" "asset_id c = Some ''wei''"
      by (simp_all add: c buy_invocation_def)
    ultimately show "\<exists>x fee n.
         py_float_of_str a = Inr x \<and>
         py_int_of_float (fmul x lit_0_03) = Inr fee \<and>
         py_int_of_str (int_max_str_digits E) a = Inr n \<and>
         amount c = Some (str_int (n + fee)) \<and> asset_id c = Some ''wei'' \<and>
         (0 \<le> n \<longrightarrow> 0 \<le> fee \<and> n \<le> n + fee)"
      using x fee n by blast
  qed
  have lit: "lit_0_03 = Fin (1080863910568919 / 2 ^ 55)"
    by (simp add: lit_0_03_val)
  have ar: "(2 :: int) ^ 53 < 1000000000000000050"
    "(3 * 1000000000000000050) div 100 = (30000000000000001 :: int)"
    by simp_all
  show ?thesis
    by (intro conjI main lit ar big_float_amount ok_fee)
qed

theorem platform_fee_witness:
  "InvokeContract buy_ok None
     \<in> set (snd (gift_transfer E_ok w_ok ''1000000000000000000'' ''0xToken'' ''0xBob'' ''0xAlice'')) \<and>
   method buy_ok = ''buy'' \<and>
   (\<exists>x fee n.
      py_float_of_str ''1000000000000000000'' = Inr x \<and>
      py_int_of_float (fmul x lit_0_03) = Inr fee \<and>
      py_int_of_str (int_max_str_digits E_ok) ''1000000000000000000'' = Inr n \<and>
      amount buy_ok = Some (str_int (n + fee)) \<and> asset_id buy_ok = Some ''wei'' \<and>
      (0 \<le> n \<longrightarrow> 0 \<le> fee \<and> n \<le> n + fee)) \<and>
   py_int_of_str (int_max_str_digits E_ok) ''1000000000000000000'' = Inr 1000000000000000000 \<and>
   (0 :: int) \<le> 1000000000000000000"
proof -
  have b: "InvokeContract buy_ok None
     \<in> set (snd (gift_transfer E_ok w_ok ''1000000000000000000'' ''0xToken'' ''0xBob'' ''0xAlice''))"
    by (simp add: ok_run trace_ok_def)
  have mb: "method buy_ok = ''buy''"
    by (simp add: buy_ok_def buy_invocation_def)
  have n: "py_int_of_str (int_max_str_digits E_ok) ''1000000000000000000'' = Inr 1000000000000000000"
    using ok_int_amount by (simp add: E_ok_def)
  note p = platform_fee [of buy_ok None E_ok w_ok "''1000000000000000000''" "''0xToken''"
      "''0xBob''" "''0xAlice''", THEN conjunct1, THEN mp, OF conjI [OF b mb]]
  show ?thesis
    by (intro conjI b mb p n) simp
qed

text \<open>
  C10. The purchase applies a fixed slippage tolerance of 1%: its \<^verbatim>\<open>minOrderSize\<close> argument
  is the string of \<^verbatim>\<open>int(float(token_quote) * 0.99)\<close>, where \<^verbatim>\<open>token_quote\<close> is what
  \<^verbatim>\<open>get_buy_quote\<close> returned and \<^verbatim>\<open>0.99\<close> is the double \<open>4458563631096791 / 2^52\<close>; the
  minimum is never negative and never more than the quoted amount, whatever the rounding.
\<close>

theorem slippage_tolerance:
  "(InvokeContract c res \<in> set (snd (gift_transfer E w a m r g)) \<and> method c = ''buy'' \<longrightarrow>
      (\<exists>q qf mo.
         get_buy_quote E (network_id w) m a = Inr q \<and>
         py_float_of_int (int q) = Inr qf \<and>
         py_int_of_float (fmul qf lit_0_99) = Inr mo \<and>
         map_of (args c) ''minOrderSize'' = Some (PyStr (str_int mo)) \<and>
         0 \<le> mo \<and> mo \<le> int q)) \<and>
   lit_0_99 = Fin (4458563631096791 / 2 ^ 52)"
proof -
  have main: "InvokeContract c res \<in> set (snd (gift_transfer E w a m r g)) \<and> method c = ''buy'' \<longrightarrow>
      (\<exists>q qf mo.
         get_buy_quote E (network_id w) m a = Inr q \<and>
         py_float_of_int (int q) = Inr qf \<and>
         py_int_of_float (fmul qf lit_0_99) = Inr mo \<and>
         map_of (args c) ''minOrderSize'' = Some (PyStr (str_int mo)) \<and>
         0 \<le> mo \<and> mo \<le> int q)"
  proof (intro impI, elim conjE)
    assume in_t: "InvokeContract c res \<in> set (snd (gift_transfer E w a m r g))"
      and mc: "method c = ''buy''"
    from invoke_in_body [of c res E w a m r g] in_t mc
    obtain q qf mo refund tot where
      q: "get_buy_quote E (network_id w) m a = Inr q"
      and qf: "py_float_of_int (int q) = Inr qf"
      and mo: "py_int_of_float (fmul qf lit_0_99) = Inr mo"
      and c: "c = buy_invocation m refund r mo tot"
      by (auto simp: snd_gift_transfer gift_invocation_def)
    have "map_of (args c) ''minOrderSize'' = Some (PyStr (str_int mo))"
      by (simp add: c buy_invocation_def)
    then show "\<exists>q qf mo.
         get_buy_quote E (network_id w) m a = Inr q \<and>
         py_float_of_int (int q) = Inr qf \<and>
         py_int_of_float (fmul qf lit_0_99) = Inr mo \<and>
         map_of (args c) ''minOrderSize'' = Some (PyStr (str_int mo)) \<and>
         0 \<le> mo \<and> mo \<le> int q"
      using q qf mo min_order_le [OF qf mo] by blast
  qed
  have lit: "lit_0_99 = Fin (4458563631096791 / 2 ^ 52)"
    by (simp add: lit_0_99_val)
  show ?thesis
    by (intro conjI main lit)
qed

theorem slippage_tolerance_witness:
  "InvokeContract buy_ok None
     \<in> set (snd (gift_transfer E_ok w_ok ''1000000000000000000'' ''0xToken'' ''0xBob'' ''0xAlice'')) \<and>
   method buy_ok = ''buy'' \<and>
   (\<exists>q qf mo.
      get_buy_quote E_ok (network_id w_ok) ''0xToken'' ''1000000000000000000'' = Inr q \<and>
      py_float_of_int (int q) = Inr qf \<and>
      py_int_of_float (fmul qf lit_0_99) = Inr mo \<and>
      map_of (args buy_ok) ''minOrderSize'' = Some (PyStr (str_int mo)) \<and>
      0 \<le> mo \<and> mo \<le> int q) \<and>
   map_of (args buy_ok) ''minOrderSize'' = Some (PyStr ''990000'')"
proof -
  have b: "InvokeContract buy_ok None
     \<in> set (snd (gift_transfer E_ok w_ok ''1000000000000000000'' ''0xToken'' ''0xBob'' ''0xAlice''))"
    by (simp add: ok_run trace_ok_def)
  have mb: "method buy_ok = ''buy''"
    by (simp add: buy_ok_def buy_invocation_def)
  have v: "map_of (args buy_ok) ''minOrderSize'' = Some (PyStr ''990000'')"
    by (simp add: buy_ok_def buy_invocation_def str_simps)
  note p = slippage_tolerance [of buy_ok None E_ok w_ok "''1000000000000000000''" "''0xToken''"
      "''0xBob''" "''0xAlice''", THEN conjunct1, THEN mp, OF conjI [OF b mb]]
  show ?thesis
    by (intro conjI b mb p v)
qed

end
